theory Spec2Isabelle
  imports Main
begin

section \<open>ReactDOMEventListener: data model\<close>

text \<open>
  Fibers, DOM nodes and bookkeeping records are JavaScript objects; they are modelled by
  references (natural numbers) into stores. Every reference denotes an object, so the
  stores are total functions.
\<close>

type_synonym fiber_ref = nat
type_synonym node = nat
type_synonym ref = nat
type_synonym DOMTopLevelEventType = string
type_synonym EventSystemFlags = nat

text \<open>
  The fields of a Fiber that this module reads: \<open>inst.return\<close>, \<open>inst.tag\<close> and, for a
  HostRoot fiber, \<open>inst.stateNode.containerInfo\<close> (the DOM container the root was created
  for). \<open>tag\<close> is a number, so the test \<open>typeof targetInst.tag === 'number'\<close> of
  \<open>dispatchEvent\<close> holds for every fiber.
\<close>

record Fiber =
  return :: "fiber_ref option"
  tag :: nat
  containerInfo :: node

text \<open>\<open>timeStamp\<close> is only handed on to \<open>shouldflushDiscreteUpdates\<close>, never computed with.\<close>

record AnyNativeEvent =
  target :: node
  timeStamp :: int

record BookKeepingInstance =
  topLevelType :: "DOMTopLevelEventType option"
  nativeEvent :: "AnyNativeEvent option"
  targetInst :: "fiber_ref option"
  ancestors :: "fiber_ref option list"

datatype error = Thrown string | TypeError

text \<open>
  A listener is \<open>dispatch.bind(null, topLevelType, eventSystemFlags)\<close> where \<open>dispatch\<close> is
  one of the two dispatch functions of this module.
\<close>

datatype dispatcher = DispatchEvent | DispatchInteractiveEvent

datatype listener = Listener dispatcher DOMTopLevelEventType EventSystemFlags

text \<open>
  The calls this module makes into its collaborators, in the order they are made. A call of
  a batching primitive is recorded when it is entered and when it is left, so that the
  calls in between are the ones made inside it; the bookkeeping record handed to
  \<open>batchedEventUpdates\<close> is recorded by its contents at the time of the call.
\<close>

datatype call =
    GetClosestInstanceFromNode node
  | RunExtractedPluginEventsInBatch "DOMTopLevelEventType option" "fiber_ref option"
      AnyNativeEvent node
  | DispatchEventForResponderEventSystem DOMTopLevelEventType "fiber_ref option"
      AnyNativeEvent node EventSystemFlags
  | FlushDiscreteUpdates
  | DiscreteUpdates DOMTopLevelEventType EventSystemFlags AnyNativeEvent
  | DiscreteUpdatesReturn
  | BatchedEventUpdates BookKeepingInstance
  | BatchedEventUpdatesReturn
  | AddEventCaptureListener node string listener
  | AddEventBubbleListener node string listener

text \<open>
  The collaborators are imported from other packages and are parameters of the model. They
  act on an external world \<open>'w\<close> (the fiber trees, the DOM, the scheduler), which this
  module never inspects except through them. \<open>fiberAt\<close> reads a fiber object.
  \<open>runExtractedPluginEventsInBatch\<close> and \<open>dispatchEventForResponderEventSystem\<close> run user
  handlers: they may change the world in any way and may throw, in which case the world
  reached at the throw is kept (\<open>Inl\<close>). The collaborators do not call back into this
  module: a handler that fires another native event while it runs is outside the model.

  Modelled from the spec: the batching primitives \<open>batchedEventUpdates\<close> and
  \<open>discreteUpdates\<close> of events/ReactGenericBatching are not in the source. The spec has them
  wrap a callback so that the updates it triggers are coalesced; they are modelled as calling
  the callback once, between an effect on the world before and one after (which is told
  what the callback threw, if anything), and handing on what the callback throws.
\<close>

record 'w env =
  HostRoot :: nat
  PLUGIN_EVENT_SYSTEM :: EventSystemFlags
  enableEventAPI :: bool
  fiberAt :: "'w \<Rightarrow> fiber_ref \<Rightarrow> Fiber"
  getClosestInstanceFromNode :: "'w \<Rightarrow> node \<Rightarrow> fiber_ref option"
  isFiberMounted :: "'w \<Rightarrow> fiber_ref \<Rightarrow> bool"
  getEventTarget :: "'w \<Rightarrow> AnyNativeEvent \<Rightarrow> node"
  runExtractedPluginEventsInBatch ::
    "DOMTopLevelEventType option \<Rightarrow> fiber_ref option \<Rightarrow> AnyNativeEvent \<Rightarrow> node \<Rightarrow> 'w
      \<Rightarrow> (error \<times> 'w) + 'w"
  dispatchEventForResponderEventSystem ::
    "DOMTopLevelEventType \<Rightarrow> fiber_ref option \<Rightarrow> AnyNativeEvent \<Rightarrow> node \<Rightarrow> EventSystemFlags
      \<Rightarrow> 'w \<Rightarrow> (error \<times> 'w) + 'w"
  isInteractiveTopLevelEventType :: "DOMTopLevelEventType \<Rightarrow> bool"
  getRawEventName :: "DOMTopLevelEventType \<Rightarrow> string"
  shouldflushDiscreteUpdates :: "int \<Rightarrow> 'w \<Rightarrow> bool \<times> 'w"
  flushDiscreteUpdates :: "'w \<Rightarrow> 'w"
  batchedEventUpdatesBefore :: "'w \<Rightarrow> 'w"
  batchedEventUpdatesAfter :: "error option \<Rightarrow> 'w \<Rightarrow> 'w"
  discreteUpdatesBefore :: "'w \<Rightarrow> 'w"
  discreteUpdatesAfter :: "error option \<Rightarrow> 'w \<Rightarrow> 'w"
  addEventCaptureListener :: "node \<Rightarrow> string \<Rightarrow> listener \<Rightarrow> 'w \<Rightarrow> 'w"
  addEventBubbleListener :: "node \<Rightarrow> string \<Rightarrow> listener \<Rightarrow> 'w \<Rightarrow> 'w"

text \<open>
  The state: the module's variables \<open>_enabled\<close> and \<open>callbackBookkeepingPool\<close>, the store of
  bookkeeping records (\<open>allocated\<close> is the next fresh reference), the external world, and
  the calls made so far.
\<close>

record 'w state =
  enabled :: bool
  callbackBookkeepingPool :: "ref list"
  records :: "ref \<Rightarrow> BookKeepingInstance"
  allocated :: nat
  world :: 'w
  calls :: "call list"

text \<open>
  A function that may throw returns \<open>Inl (e, s)\<close>, the error with the state reached at the
  throw, or \<open>Inr s\<close>. A function that may run forever returns an option, \<open>None\<close> when it
  does not return.
\<close>

type_synonym 'w outcome = "(error \<times> 'w state) + 'w state"

definition final :: "'w outcome \<Rightarrow> 'w state" where
  "final r = (case r of Inl (e, s) \<Rightarrow> s | Inr s \<Rightarrow> s)"

definition raised :: "'w outcome \<Rightarrow> error option" where
  "raised r = (case r of Inl (e, s) \<Rightarrow> Some e | Inr s \<Rightarrow> None)"

definition CALLBACK_BOOKKEEPING_POOL_SIZE :: nat where
  "CALLBACK_BOOKKEEPING_POOL_SIZE = 10"

section \<open>The functions of the module\<close>

subsection \<open>findRootContainerNode\<close>

text \<open>The loop \<open>while (inst.return) inst = inst.return\<close>; it runs forever on a cyclic chain.\<close>

partial_function (option) findRootContainerNode_loop ::
  "(fiber_ref \<Rightarrow> Fiber) \<Rightarrow> fiber_ref \<Rightarrow> fiber_ref option" where
  "findRootContainerNode_loop fibers inst =
     (case return (fibers inst) of
        Some parent \<Rightarrow> findRootContainerNode_loop fibers parent
      | None \<Rightarrow> Some inst)"

declare findRootContainerNode_loop.simps [code]

text \<open>The result is \<open>Some None\<close> for JavaScript's null (a detached tree).\<close>

definition findRootContainerNode :: "'w env \<Rightarrow> 'w \<Rightarrow> fiber_ref \<Rightarrow> node option option" where
  "findRootContainerNode E w inst =
     (case findRootContainerNode_loop (fiberAt E w) inst of
        None \<Rightarrow> None
      | Some topInst \<Rightarrow>
          if tag (fiberAt E w topInst) \<noteq> HostRoot E then Some None
          else Some (Some (containerInfo (fiberAt E w topInst))))"

subsection \<open>The bookkeeping pool\<close>

definition getTopLevelCallbackBookKeeping ::
  "DOMTopLevelEventType \<Rightarrow> AnyNativeEvent \<Rightarrow> fiber_ref option \<Rightarrow> 'w state \<Rightarrow> ref \<times> 'w state" where
  "getTopLevelCallbackBookKeeping tlt ev inst s =
     (if callbackBookkeepingPool s \<noteq> [] then
        (let instance = last (callbackBookkeepingPool s) in
         (instance,
          s\<lparr>callbackBookkeepingPool := butlast (callbackBookkeepingPool s),
            records := (records s)(instance := (records s instance)
              \<lparr>topLevelType := Some tlt, nativeEvent := Some ev, targetInst := inst\<rparr>)\<rparr>))
      else
        (allocated s,
         s\<lparr>records := (records s)(allocated s :=
              \<lparr>topLevelType = Some tlt, nativeEvent = Some ev, targetInst = inst,
               ancestors = []\<rparr>),
           allocated := Suc (allocated s)\<rparr>))"

definition releaseTopLevelCallbackBookKeeping :: "ref \<Rightarrow> 'w state \<Rightarrow> 'w state" where
  "releaseTopLevelCallbackBookKeeping instance s =
     (let s1 = s\<lparr>records := (records s)(instance := (records s instance)
                  \<lparr>topLevelType := None, nativeEvent := None, targetInst := None,
                   ancestors := []\<rparr>)\<rparr>
      in if length (callbackBookkeepingPool s1) < CALLBACK_BOOKKEEPING_POOL_SIZE
         then s1\<lparr>callbackBookkeepingPool := callbackBookkeepingPool s1 @ [instance]\<rparr>
         else s1)"

subsection \<open>handleTopLevel\<close>

definition pushAncestor :: "ref \<Rightarrow> fiber_ref option \<Rightarrow> 'w state \<Rightarrow> 'w state" where
  "pushAncestor bookKeeping ancestor s =
     s\<lparr>records := (records s)(bookKeeping := (records s bookKeeping)
         \<lparr>ancestors := ancestors (records s bookKeeping) @ [ancestor]\<rparr>)\<rparr>"

text \<open>
  The \<open>do ... while (ancestor)\<close> loop, entered with the current \<open>ancestor\<close>. It does not
  return when a parent chain is cyclic or when the trees are nested in a cycle.
\<close>

partial_function (option) handleTopLevel_ancestors ::
  "'w env \<Rightarrow> ref \<Rightarrow> fiber_ref option \<Rightarrow> 'w state \<Rightarrow> 'w state option" where
  "handleTopLevel_ancestors E bookKeeping ancestor s =
     (case ancestor of
        None \<Rightarrow> Some (pushAncestor bookKeeping None s)
      | Some inst \<Rightarrow>
          (case findRootContainerNode E (world s) inst of
             None \<Rightarrow> None
           | Some None \<Rightarrow> Some s
           | Some (Some root) \<Rightarrow>
               (case getClosestInstanceFromNode E (world s) root of
                  None \<Rightarrow>
                    Some ((pushAncestor bookKeeping (Some inst) s)
                            \<lparr>calls := calls s @ [GetClosestInstanceFromNode root]\<rparr>)
                | Some outer \<Rightarrow>
                    handleTopLevel_ancestors E bookKeeping (Some outer)
                      ((pushAncestor bookKeeping (Some inst) s)
                         \<lparr>calls := calls s @ [GetClosestInstanceFromNode root]\<rparr>))))"

declare handleTopLevel_ancestors.simps [code]

text \<open>
  The \<open>for\<close> loop, entered with the current \<open>i\<close>. The record's \<open>nativeEvent\<close> is read through
  a cast from a nullable field; \<open>getEventTarget(null)\<close> throws a TypeError.
\<close>

function handleTopLevel_dispatch :: "'w env \<Rightarrow> ref \<Rightarrow> nat \<Rightarrow> 'w state \<Rightarrow> 'w outcome" where
  "handleTopLevel_dispatch E bookKeeping i s =
     (if i < length (ancestors (records s bookKeeping)) then
        (case nativeEvent (records s bookKeeping) of
           None \<Rightarrow> Inl (TypeError, s)
         | Some ev \<Rightarrow>
             (case runExtractedPluginEventsInBatch E (topLevelType (records s bookKeeping))
                     (ancestors (records s bookKeeping) ! i) ev (getEventTarget E (world s) ev)
                     (world s) of
                Inl (e, w) \<Rightarrow>
                  Inl (e, s\<lparr>world := w,
                            calls := calls s @
                              [RunExtractedPluginEventsInBatch (topLevelType (records s bookKeeping))
                                 (ancestors (records s bookKeeping) ! i) ev
                                 (getEventTarget E (world s) ev)]\<rparr>)
              | Inr w \<Rightarrow>
                  handleTopLevel_dispatch E bookKeeping (Suc i)
                    (s\<lparr>world := w,
                       calls := calls s @
                         [RunExtractedPluginEventsInBatch (topLevelType (records s bookKeeping))
                            (ancestors (records s bookKeeping) ! i) ev
                            (getEventTarget E (world s) ev)]\<rparr>)))
      else Inr s)"
  by pat_completeness auto
termination
  by (relation "measure (\<lambda>(E, bookKeeping, i, s). length (ancestors (records s bookKeeping)) - i)")
     auto

declare handleTopLevel_dispatch.simps [simp del]

definition handleTopLevel :: "'w env \<Rightarrow> ref \<Rightarrow> 'w state \<Rightarrow> 'w outcome option" where
  "handleTopLevel E bookKeeping s =
     (case handleTopLevel_ancestors E bookKeeping (targetInst (records s bookKeeping)) s of
        None \<Rightarrow> None
      | Some s1 \<Rightarrow> Some (handleTopLevel_dispatch E bookKeeping 0 s1))"

subsection \<open>setEnabled, isEnabled\<close>

text \<open>\<open>enabled\<close> is of type \<open>?boolean\<close>: \<open>!!enabled\<close> is false for null and undefined.\<close>

definition setEnabled :: "bool option \<Rightarrow> 'w state \<Rightarrow> 'w state" where
  "setEnabled b s = s\<lparr>enabled := (case b of Some v \<Rightarrow> v | None \<Rightarrow> False)\<rparr>"

definition isEnabled :: "'w state \<Rightarrow> bool" where
  "isEnabled s = enabled s"

subsection \<open>The batching primitives\<close>

text \<open>
  Modelled from the spec: \<open>batchedEventUpdates(fn, a)\<close> and
  \<open>discreteUpdates(fn, a, b, c)\<close> are imported from events/ReactGenericBatching, which is
  not in the source. They call \<open>fn\<close> once on the arguments, between their own effect on the
  world before and after, and hand on what \<open>fn\<close> throws.
\<close>

definition batchedEventUpdates ::
  "'w env \<Rightarrow> (ref \<Rightarrow> 'w state \<Rightarrow> 'w outcome option) \<Rightarrow> ref \<Rightarrow> 'w state \<Rightarrow> 'w outcome option" where
  "batchedEventUpdates E fn a s =
     (case fn a (s\<lparr>world := batchedEventUpdatesBefore E (world s),
                    calls := calls s @ [BatchedEventUpdates (records s a)]\<rparr>) of
        None \<Rightarrow> None
      | Some (Inl (e, s1)) \<Rightarrow>
          Some (Inl (e, s1\<lparr>world := batchedEventUpdatesAfter E (Some e) (world s1),
                          calls := calls s1 @ [BatchedEventUpdatesReturn]\<rparr>))
      | Some (Inr s1) \<Rightarrow>
          Some (Inr (s1\<lparr>world := batchedEventUpdatesAfter E None (world s1),
                       calls := calls s1 @ [BatchedEventUpdatesReturn]\<rparr>)))"

definition discreteUpdates ::
  "'w env \<Rightarrow> (DOMTopLevelEventType \<Rightarrow> EventSystemFlags \<Rightarrow> AnyNativeEvent \<Rightarrow> 'w state
      \<Rightarrow> 'w outcome option)
    \<Rightarrow> DOMTopLevelEventType \<Rightarrow> EventSystemFlags \<Rightarrow> AnyNativeEvent \<Rightarrow> 'w state
    \<Rightarrow> 'w outcome option" where
  "discreteUpdates E fn a b c s =
     (case fn a b c (s\<lparr>world := discreteUpdatesBefore E (world s),
                        calls := calls s @ [DiscreteUpdates a b c]\<rparr>) of
        None \<Rightarrow> None
      | Some (Inl (e, s1)) \<Rightarrow>
          Some (Inl (e, s1\<lparr>world := discreteUpdatesAfter E (Some e) (world s1),
                          calls := calls s1 @ [DiscreteUpdatesReturn]\<rparr>))
      | Some (Inr s1) \<Rightarrow>
          Some (Inr (s1\<lparr>world := discreteUpdatesAfter E None (world s1),
                       calls := calls s1 @ [DiscreteUpdatesReturn]\<rparr>)))"

subsection \<open>Dispatch\<close>

text \<open>\<open>try { batchedEventUpdates(handleTopLevel, bookKeeping) } finally { release }\<close>.\<close>

definition dispatchEventForPluginEventSystem ::
  "'w env \<Rightarrow> DOMTopLevelEventType \<Rightarrow> EventSystemFlags \<Rightarrow> AnyNativeEvent \<Rightarrow> fiber_ref option
    \<Rightarrow> 'w state \<Rightarrow> 'w outcome option" where
  "dispatchEventForPluginEventSystem E tlt eventSystemFlags ev inst s =
     (case getTopLevelCallbackBookKeeping tlt ev inst s of
        (bookKeeping, s1) \<Rightarrow>
          (case batchedEventUpdates E (handleTopLevel E) bookKeeping s1 of
             None \<Rightarrow> None
           | Some (Inl (e, s2)) \<Rightarrow>
               Some (Inl (e, releaseTopLevelCallbackBookKeeping bookKeeping s2))
           | Some (Inr s2) \<Rightarrow>
               Some (Inr (releaseTopLevelCallbackBookKeeping bookKeeping s2))))"

definition callResponderEventSystem ::
  "'w env \<Rightarrow> DOMTopLevelEventType \<Rightarrow> fiber_ref option \<Rightarrow> AnyNativeEvent \<Rightarrow> node
    \<Rightarrow> EventSystemFlags \<Rightarrow> 'w state \<Rightarrow> 'w outcome" where
  "callResponderEventSystem E tlt inst ev nativeEventTarget eventSystemFlags s =
     (case dispatchEventForResponderEventSystem E tlt inst ev nativeEventTarget
             eventSystemFlags (world s) of
        Inl (e, w) \<Rightarrow>
          Inl (e, s\<lparr>world := w,
                    calls := calls s @
                      [DispatchEventForResponderEventSystem tlt inst ev nativeEventTarget
                         eventSystemFlags]\<rparr>)
      | Inr w \<Rightarrow>
          Inr (s\<lparr>world := w,
                 calls := calls s @
                   [DispatchEventForResponderEventSystem tlt inst ev nativeEventTarget
                      eventSystemFlags]\<rparr>))"

definition dispatchEvent ::
  "'w env \<Rightarrow> DOMTopLevelEventType \<Rightarrow> EventSystemFlags \<Rightarrow> AnyNativeEvent \<Rightarrow> 'w state
    \<Rightarrow> 'w outcome option" where
  "dispatchEvent E tlt eventSystemFlags ev s =
     (if \<not> enabled s then Some (Inr s)
      else
        (let nativeEventTarget = getEventTarget E (world s) ev;
             s1 = s\<lparr>calls := calls s @ [GetClosestInstanceFromNode nativeEventTarget]\<rparr>;
             inst = (case getClosestInstanceFromNode E (world s) nativeEventTarget of
                       None \<Rightarrow> None
                     | Some found \<Rightarrow>
                         if \<not> isFiberMounted E (world s) found then None else Some found)
         in if enableEventAPI E then
              (if eventSystemFlags = PLUGIN_EVENT_SYSTEM E then
                 dispatchEventForPluginEventSystem E tlt eventSystemFlags ev inst s1
               else
                 Some (callResponderEventSystem E tlt inst ev nativeEventTarget
                         eventSystemFlags s1))
            else dispatchEventForPluginEventSystem E tlt eventSystemFlags ev inst s1))"

definition callFlushDiscreteUpdates :: "'w env \<Rightarrow> 'w state \<Rightarrow> 'w state" where
  "callFlushDiscreteUpdates E s =
     s\<lparr>world := flushDiscreteUpdates E (world s), calls := calls s @ [FlushDiscreteUpdates]\<rparr>"

text \<open>\<open>||\<close> does not evaluate \<open>shouldflushDiscreteUpdates\<close> when \<open>enableEventAPI\<close> is off.\<close>

definition dispatchInteractiveEvent ::
  "'w env \<Rightarrow> DOMTopLevelEventType \<Rightarrow> EventSystemFlags \<Rightarrow> AnyNativeEvent \<Rightarrow> 'w state
    \<Rightarrow> 'w outcome option" where
  "dispatchInteractiveEvent E tlt eventSystemFlags ev s =
     discreteUpdates E (dispatchEvent E) tlt eventSystemFlags ev
       (if \<not> enableEventAPI E then callFlushDiscreteUpdates E s
        else
          (case shouldflushDiscreteUpdates E (timeStamp ev) (world s) of
             (flush, w) \<Rightarrow>
               if flush then callFlushDiscreteUpdates E (s\<lparr>world := w\<rparr>)
               else s\<lparr>world := w\<rparr>))"

subsection \<open>Trapping events\<close>

definition trapEventForPluginEventSystem ::
  "'w env \<Rightarrow> node \<Rightarrow> DOMTopLevelEventType \<Rightarrow> bool \<Rightarrow> 'w state \<Rightarrow> 'w state" where
  "trapEventForPluginEventSystem E element tlt capture s =
     (let dispatch = (if isInteractiveTopLevelEventType E tlt then DispatchInteractiveEvent
                      else DispatchEvent);
          rawEventName = getRawEventName E tlt;
          listener = Listener dispatch tlt (PLUGIN_EVENT_SYSTEM E)
      in if capture then
           s\<lparr>world := addEventCaptureListener E element rawEventName listener (world s),
             calls := calls s @ [AddEventCaptureListener element rawEventName listener]\<rparr>
         else
           s\<lparr>world := addEventBubbleListener E element rawEventName listener (world s),
             calls := calls s @ [AddEventBubbleListener element rawEventName listener]\<rparr>)"

definition trapBubbledEvent :: "'w env \<Rightarrow> DOMTopLevelEventType \<Rightarrow> node \<Rightarrow> 'w state \<Rightarrow> 'w state" where
  "trapBubbledEvent E tlt element s = trapEventForPluginEventSystem E element tlt False s"

definition trapCapturedEvent :: "'w env \<Rightarrow> DOMTopLevelEventType \<Rightarrow> node \<Rightarrow> 'w state \<Rightarrow> 'w state" where
  "trapCapturedEvent E tlt element s = trapEventForPluginEventSystem E element tlt True s"

text \<open>The host calling a registered listener with a native event.\<close>

fun callListener :: "'w env \<Rightarrow> listener \<Rightarrow> AnyNativeEvent \<Rightarrow> 'w state \<Rightarrow> 'w outcome option" where
  "callListener E (Listener DispatchEvent tlt flags) ev s = dispatchEvent E tlt flags ev s"
| "callListener E (Listener DispatchInteractiveEvent tlt flags) ev s =
     dispatchInteractiveEvent E tlt flags ev s"

section \<open>What the loops compute\<close>

text \<open>
  The entry points the \<open>do ... while\<close> loop of \<open>handleTopLevel\<close> collects from an instance,
  each with the root container found for it, as a function of the world alone.
\<close>

partial_function (option) entryPoints ::
  "'w env \<Rightarrow> 'w \<Rightarrow> fiber_ref \<Rightarrow> (fiber_ref \<times> node) list option" where
  "entryPoints E w inst =
     (case findRootContainerNode E w inst of
        None \<Rightarrow> None
      | Some None \<Rightarrow> Some []
      | Some (Some root) \<Rightarrow>
          (case getClosestInstanceFromNode E w root of
             None \<Rightarrow> Some [(inst, root)]
           | Some outer \<Rightarrow>
               Option.bind (entryPoints E w outer) (\<lambda>ch. Some ((inst, root) # ch))))"

declare entryPoints.simps [code]

definition entries ::
  "'w env \<Rightarrow> 'w \<Rightarrow> fiber_ref option \<Rightarrow> (fiber_ref \<times> node) list option" where
  "entries E w inst = (case inst of None \<Rightarrow> Some [] | Some a \<Rightarrow> entryPoints E w a)"

definition appendAncestors ::
  "ref \<Rightarrow> (fiber_ref \<times> node) list \<Rightarrow> 'w state \<Rightarrow> 'w state" where
  "appendAncestors bookKeeping ch s =
     s\<lparr>records := (records s)(bookKeeping := (records s bookKeeping)
          \<lparr>ancestors := ancestors (records s bookKeeping) @ map (\<lambda>p. Some (fst p)) ch\<rparr>),
       calls := calls s @ map (\<lambda>p. GetClosestInstanceFromNode (snd p)) ch\<rparr>"

text \<open>
  The calls the \<open>for\<close> loop makes for a list of targets, and the world it ends in or the
  error that stops it.
\<close>

fun deliveries ::
  "'w env \<Rightarrow> DOMTopLevelEventType option \<Rightarrow> AnyNativeEvent \<Rightarrow> fiber_ref option list \<Rightarrow> 'w
    \<Rightarrow> call list \<times> ((error \<times> 'w) + 'w)" where
  "deliveries E tlt ev [] w = ([], Inr w)"
| "deliveries E tlt ev (x # xs) w =
     (case runExtractedPluginEventsInBatch E tlt x ev (getEventTarget E w ev) w of
        Inl (e, w1) \<Rightarrow>
          ([RunExtractedPluginEventsInBatch tlt x ev (getEventTarget E w ev)], Inl (e, w1))
      | Inr w1 \<Rightarrow>
          (case deliveries E tlt ev xs w1 of
             (cs, r) \<Rightarrow>
               (RunExtractedPluginEventsInBatch tlt x ev (getEventTarget E w ev) # cs, r)))"

definition delivered :: "'w state \<Rightarrow> call list \<times> ((error \<times> 'w) + 'w) \<Rightarrow> 'w outcome" where
  "delivered s d =
     (case d of
        (cs, Inl (e, w)) \<Rightarrow> Inl (e, s\<lparr>world := w, calls := calls s @ cs\<rparr>)
      | (cs, Inr w) \<Rightarrow> Inr (s\<lparr>world := w, calls := calls s @ cs\<rparr>))"

fun isDelivery :: "call \<Rightarrow> bool" where
  "isDelivery (RunExtractedPluginEventsInBatch tlt inst ev tgt) = True"
| "isDelivery c = False"

fun isResolution :: "call \<Rightarrow> bool" where
  "isResolution (GetClosestInstanceFromNode n) = True"
| "isResolution c = False"

fun deliveryTarget :: "call \<Rightarrow> fiber_ref option" where
  "deliveryTarget (RunExtractedPluginEventsInBatch tlt inst ev tgt) = inst"
| "deliveryTarget c = None"

text \<open>The state in which \<open>dispatchInteractiveEvent\<close> calls \<open>discreteUpdates\<close>.\<close>

definition beforeDiscreteUpdates ::
  "'w env \<Rightarrow> AnyNativeEvent \<Rightarrow> 'w state \<Rightarrow> 'w state" where
  "beforeDiscreteUpdates E ev s =
       (if \<not> enableEventAPI E then callFlushDiscreteUpdates E s
        else
          (case shouldflushDiscreteUpdates E (timeStamp ev) (world s) of
             (flush, w) \<Rightarrow>
               if flush then callFlushDiscreteUpdates E (s\<lparr>world := w\<rparr>)
               else s\<lparr>world := w\<rparr>))"

section \<open>Parent chains and nested trees\<close>

text \<open>
  The parent chain of an instance, stated on the \<open>return\<close> links alone and not through the
  loop of \<open>findRootContainerNode\<close>: \<open>chainTop fibers a t\<close> holds when following \<open>return\<close> from
  \<open>a\<close>, any number of times, ends at \<open>t\<close>, the node that has no parent.
\<close>

inductive chainTop :: "(fiber_ref \<Rightarrow> Fiber) \<Rightarrow> fiber_ref \<Rightarrow> fiber_ref \<Rightarrow> bool"
  for fibers :: "fiber_ref \<Rightarrow> Fiber" where
  chainTop_top: "return (fibers a) = None \<Longrightarrow> chainTop fibers a a"
| chainTop_parent:
    "return (fibers a) = Some parent \<Longrightarrow> chainTop fibers parent t \<Longrightarrow> chainTop fibers a t"

text \<open>
  The tree of \<open>x\<close> is mounted in a container node that \<open>y\<close> owns: the parent chain of \<open>x\<close> ends
  in a node tagged \<open>HostRoot\<close>, and the instance closest to that root's container is \<open>y\<close>.
\<close>

inductive mountedIn :: "'w env \<Rightarrow> 'w \<Rightarrow> fiber_ref \<Rightarrow> fiber_ref \<Rightarrow> bool"
  for E :: "'w env" and w :: 'w where
  mountedInI:
    "chainTop (fiberAt E w) x t \<Longrightarrow> tag (fiberAt E w t) = HostRoot E \<Longrightarrow>
     getClosestInstanceFromNode E w (containerInfo (fiberAt E w t)) = Some y \<Longrightarrow>
     mountedIn E w x y"

text \<open>
  A list of instances is ordered innermost tree first when the tree of each one is mounted
  in a container that the next one owns.
\<close>

fun innermostFirst :: "'w env \<Rightarrow> 'w \<Rightarrow> fiber_ref list \<Rightarrow> bool" where
  "innermostFirst E w [] = True"
| "innermostFirst E w [x] = True"
| "innermostFirst E w (x # y # ys) = (mountedIn E w x y \<and> innermostFirst E w (y # ys))"

text \<open>
  The DOM is a finite tree: every parent chain ends, and going from a tree to the tree that
  contains its root container decreases a rank.
\<close>

definition finiteNesting :: "'w env \<Rightarrow> 'w \<Rightarrow> (fiber_ref \<Rightarrow> nat) \<Rightarrow> bool" where
  "finiteNesting E w rank \<longleftrightarrow>
     (\<forall>b. \<exists>t. chainTop (fiberAt E w) b t) \<and>
     (\<forall>b c. mountedIn E w b c \<longrightarrow> rank c < rank b)"

section \<open>The pool invariant\<close>

definition cleared :: BookKeepingInstance where
  "cleared = \<lparr>topLevelType = None, nativeEvent = None, targetInst = None, ancestors = []\<rparr>"

definition poolInv :: "'w state \<Rightarrow> bool" where
  "poolInv s \<longleftrightarrow>
     length (callbackBookkeepingPool s) \<le> CALLBACK_BOOKKEEPING_POOL_SIZE \<and>
     distinct (callbackBookkeepingPool s) \<and>
     (\<forall>a \<in> set (callbackBookkeepingPool s). a < allocated s \<and> records s a = cleared)"

text \<open>A record that has been handed out by \<open>getTopLevelCallbackBookKeeping\<close> and not released.\<close>

definition inUse :: "ref \<Rightarrow> 'w state \<Rightarrow> bool" where
  "inUse bookKeeping s \<longleftrightarrow>
     bookKeeping < allocated s \<and> bookKeeping \<notin> set (callbackBookkeepingPool s)"

definition sameOutside :: "'w state \<Rightarrow> 'w state \<Rightarrow> bool" where
  "sameOutside s s1 \<longleftrightarrow>
     enabled s1 = enabled s \<and> world s1 = world s \<and> calls s1 = calls s"

definition sameModule :: "ref \<Rightarrow> 'w state \<Rightarrow> 'w state \<Rightarrow> bool" where
  "sameModule bookKeeping s s1 \<longleftrightarrow>
     enabled s1 = enabled s \<and>
     callbackBookkeepingPool s1 = callbackBookkeepingPool s \<and>
     allocated s1 = allocated s \<and>
     (\<forall>a. a \<noteq> bookKeeping \<longrightarrow> records s1 a = records s a)"

section \<open>Dispatch without the pool\<close>

text \<open>
  The spec's pooling disabled: acquire always allocates a fresh record, release clears the
  record and drops it. The dispatch functions are the ones above with these two in place of
  the pooled ones.
\<close>

definition getTopLevelCallbackBookKeeping_alwaysAllocate ::
  "DOMTopLevelEventType \<Rightarrow> AnyNativeEvent \<Rightarrow> fiber_ref option \<Rightarrow> 'w state \<Rightarrow> ref \<times> 'w state" where
  "getTopLevelCallbackBookKeeping_alwaysAllocate tlt ev inst s =
     (allocated s,
      s\<lparr>records := (records s)(allocated s :=
           \<lparr>topLevelType = Some tlt, nativeEvent = Some ev, targetInst = inst,
            ancestors = []\<rparr>),
        allocated := Suc (allocated s)\<rparr>)"

definition releaseTopLevelCallbackBookKeeping_alwaysAllocate :: "ref \<Rightarrow> 'w state \<Rightarrow> 'w state" where
  "releaseTopLevelCallbackBookKeeping_alwaysAllocate instance s =
     s\<lparr>records := (records s)(instance := (records s instance)
         \<lparr>topLevelType := None, nativeEvent := None, targetInst := None, ancestors := []\<rparr>)\<rparr>"

definition dispatchEventForPluginEventSystem_alwaysAllocate ::
  "'w env \<Rightarrow> DOMTopLevelEventType \<Rightarrow> EventSystemFlags \<Rightarrow> AnyNativeEvent \<Rightarrow> fiber_ref option
    \<Rightarrow> 'w state \<Rightarrow> 'w outcome option" where
  "dispatchEventForPluginEventSystem_alwaysAllocate E tlt eventSystemFlags ev inst s =
     (case getTopLevelCallbackBookKeeping_alwaysAllocate tlt ev inst s of
        (bookKeeping, s1) \<Rightarrow>
          (case batchedEventUpdates E (handleTopLevel E) bookKeeping s1 of
             None \<Rightarrow> None
           | Some (Inl (e, s2)) \<Rightarrow>
               Some (Inl (e, releaseTopLevelCallbackBookKeeping_alwaysAllocate bookKeeping s2))
           | Some (Inr s2) \<Rightarrow>
               Some (Inr (releaseTopLevelCallbackBookKeeping_alwaysAllocate bookKeeping s2))))"

definition dispatchEvent_alwaysAllocate ::
  "'w env \<Rightarrow> DOMTopLevelEventType \<Rightarrow> EventSystemFlags \<Rightarrow> AnyNativeEvent \<Rightarrow> 'w state
    \<Rightarrow> 'w outcome option" where
  "dispatchEvent_alwaysAllocate E tlt eventSystemFlags ev s =
     (if \<not> enabled s then Some (Inr s)
      else
        (let nativeEventTarget = getEventTarget E (world s) ev;
             s1 = s\<lparr>calls := calls s @ [GetClosestInstanceFromNode nativeEventTarget]\<rparr>;
             inst = (case getClosestInstanceFromNode E (world s) nativeEventTarget of
                       None \<Rightarrow> None
                     | Some found \<Rightarrow>
                         if \<not> isFiberMounted E (world s) found then None else Some found)
         in if enableEventAPI E then
              (if eventSystemFlags = PLUGIN_EVENT_SYSTEM E then
                 dispatchEventForPluginEventSystem_alwaysAllocate E tlt eventSystemFlags ev inst s1
               else
                 Some (callResponderEventSystem E tlt inst ev nativeEventTarget
                         eventSystemFlags s1))
            else dispatchEventForPluginEventSystem_alwaysAllocate E tlt eventSystemFlags ev inst s1))"

definition dispatchInteractiveEvent_alwaysAllocate ::
  "'w env \<Rightarrow> DOMTopLevelEventType \<Rightarrow> EventSystemFlags \<Rightarrow> AnyNativeEvent \<Rightarrow> 'w state
    \<Rightarrow> 'w outcome option" where
  "dispatchInteractiveEvent_alwaysAllocate E tlt eventSystemFlags ev s =
     discreteUpdates E (dispatchEvent_alwaysAllocate E) tlt eventSystemFlags ev
       (if \<not> enableEventAPI E then callFlushDiscreteUpdates E s
        else
          (case shouldflushDiscreteUpdates E (timeStamp ev) (world s) of
             (flush, w) \<Rightarrow>
               if flush then callFlushDiscreteUpdates E (s\<lparr>world := w\<rparr>)
               else s\<lparr>world := w\<rparr>))"

fun callListener_alwaysAllocate ::
  "'w env \<Rightarrow> listener \<Rightarrow> AnyNativeEvent \<Rightarrow> 'w state \<Rightarrow> 'w outcome option" where
  "callListener_alwaysAllocate E (Listener DispatchEvent tlt flags) ev s =
     dispatchEvent_alwaysAllocate E tlt flags ev s"
| "callListener_alwaysAllocate E (Listener DispatchInteractiveEvent tlt flags) ev s =
     dispatchInteractiveEvent_alwaysAllocate E tlt flags ev s"

text \<open>
  The host firing a sequence of native events at registered listeners. An error thrown by a
  listener is reported by the host and the next event is dispatched; the result lists what
  each listener threw.
\<close>

fun fireEvents ::
  "'w env \<Rightarrow> (listener \<times> AnyNativeEvent) list \<Rightarrow> 'w state
    \<Rightarrow> (error option list \<times> 'w state) option" where
  "fireEvents E [] s = Some ([], s)"
| "fireEvents E (lev # rest) s =
     (case callListener E (fst lev) (snd lev) s of
        None \<Rightarrow> None
      | Some r \<Rightarrow>
          (case fireEvents E rest (final r) of
             None \<Rightarrow> None
           | Some (errs, s1) \<Rightarrow> Some (raised r # errs, s1)))"

fun fireEvents_alwaysAllocate ::
  "'w env \<Rightarrow> (listener \<times> AnyNativeEvent) list \<Rightarrow> 'w state
    \<Rightarrow> (error option list \<times> 'w state) option" where
  "fireEvents_alwaysAllocate E [] s = Some ([], s)"
| "fireEvents_alwaysAllocate E (lev # rest) s =
     (case callListener_alwaysAllocate E (fst lev) (snd lev) s of
        None \<Rightarrow> None
      | Some r \<Rightarrow>
          (case fireEvents_alwaysAllocate E rest (final r) of
             None \<Rightarrow> None
           | Some (errs, s1) \<Rightarrow> Some (raised r # errs, s1)))"

text \<open>
  What can be observed of a run: what was thrown, the enabled flag, the world and the calls
  made into the collaborators. The record store and the pool are internal.
\<close>

definition sameOutcome :: "'w outcome \<Rightarrow> 'w outcome \<Rightarrow> bool" where
  "sameOutcome r r' \<longleftrightarrow>
     raised r = raised r' \<and> enabled (final r) = enabled (final r') \<and>
     world (final r) = world (final r') \<and> calls (final r) = calls (final r')"

definition sameObservations ::
  "error option list \<times> 'w state \<Rightarrow> error option list \<times> 'w state \<Rightarrow> bool" where
  "sameObservations p q \<longleftrightarrow>
     fst p = fst q \<and> enabled (snd p) = enabled (snd q) \<and>
     world (snd p) = world (snd q) \<and> calls (snd p) = calls (snd q)"

section \<open>An example world\<close>

text \<open>
  Two nested trees. The outer root 0 (container 100) has the child 11, whose child 1 owns
  the DOM node 200; fiber 5, another child of 0, is not mounted yet. The inner root 2 is
  mounted in container 200; its child 8 has the child 3. Fibers 4, 9 and 10 are a detached
  fragment (4 below 9 below 10, and 10 is no root); fiber 4 owns node 400, in which the
  root 6 with the child 7 is mounted. The world is a counter that every handler increases;
  once it is positive, fiber 3 has been removed from its tree. The handlers of ''scroll''
  throw.
\<close>

definition exFiberAt :: "nat \<Rightarrow> fiber_ref \<Rightarrow> Fiber" where
  "exFiberAt w i =
     (if i = 0 then \<lparr>return = None, tag = 3, containerInfo = 100\<rparr>
      else if i = 1 then \<lparr>return = Some 11, tag = 5, containerInfo = 0\<rparr>
      else if i = 2 then \<lparr>return = None, tag = 3, containerInfo = 200\<rparr>
      else if i = 3 then \<lparr>return = (if w = 0 then Some 8 else None), tag = 5, containerInfo = 0\<rparr>
      else if i = 4 then \<lparr>return = Some 9, tag = 5, containerInfo = 0\<rparr>
      else if i = 5 then \<lparr>return = Some 0, tag = 5, containerInfo = 0\<rparr>
      else if i = 6 then \<lparr>return = None, tag = 3, containerInfo = 400\<rparr>
      else if i = 7 then \<lparr>return = Some 6, tag = 5, containerInfo = 0\<rparr>
      else if i = 8 then \<lparr>return = Some 2, tag = 5, containerInfo = 0\<rparr>
      else if i = 9 then \<lparr>return = Some 10, tag = 5, containerInfo = 0\<rparr>
      else if i = 11 then \<lparr>return = Some 0, tag = 5, containerInfo = 0\<rparr>
      else \<lparr>return = None, tag = 5, containerInfo = 0\<rparr>)"

definition exClosest :: "nat \<Rightarrow> node \<Rightarrow> fiber_ref option" where
  "exClosest w n =
     (if n = 300 then Some 3 else if n = 200 then Some 1 else if n = 400 then Some 4
      else if n = 500 then Some 5 else if n = 700 then Some 7 else None)"

definition exEnv :: "nat env" where
  "exEnv =
     \<lparr>HostRoot = 3, PLUGIN_EVENT_SYSTEM = 1, enableEventAPI = False,
      fiberAt = exFiberAt,
      getClosestInstanceFromNode = exClosest,
      isFiberMounted = (\<lambda>w i. i \<noteq> 5),
      getEventTarget = (\<lambda>w ev. target ev),
      runExtractedPluginEventsInBatch =
        (\<lambda>tlt inst ev tgt w.
           if tlt = Some ''scroll'' then Inl (Thrown ''handler'', Suc w) else Inr (Suc w)),
      dispatchEventForResponderEventSystem = (\<lambda>tlt inst ev tgt flags w. Inr (Suc w)),
      isInteractiveTopLevelEventType = (\<lambda>tlt. tlt = ''click''),
      getRawEventName = (\<lambda>tlt. tlt),
      shouldflushDiscreteUpdates = (\<lambda>ts w. (ts \<noteq> 0, w)),
      flushDiscreteUpdates = (\<lambda>w. w + 10),
      batchedEventUpdatesBefore = (\<lambda>w. w),
      batchedEventUpdatesAfter = (\<lambda>e w. w),
      discreteUpdatesBefore = (\<lambda>w. w),
      discreteUpdatesAfter = (\<lambda>e w. w),
      addEventCaptureListener = (\<lambda>element name l w. w),
      addEventBubbleListener = (\<lambda>element name l w. w)\<rparr>"

definition exState :: "nat state" where
  "exState =
     \<lparr>enabled = True, callbackBookkeepingPool = [], records = (\<lambda>a. cleared), allocated = 0,
      world = 0, calls = []\<rparr>"

definition exEvent :: "node \<Rightarrow> AnyNativeEvent" where
  "exEvent n = \<lparr>target = n, timeStamp = 7\<rparr>"

definition exPooled :: "nat state" where
  "exPooled = exState\<lparr>callbackBookkeepingPool := [0], allocated := 2\<rparr>"

definition exAcquired :: "fiber_ref option \<Rightarrow> nat state" where
  "exAcquired inst = snd (getTopLevelCallbackBookKeeping ''click'' (exEvent 300) inst exState)"

definition exTopOf :: "fiber_ref \<Rightarrow> fiber_ref" where
  "exTopOf i =
     (if i = 1 \<or> i = 5 \<or> i = 11 then 0
      else if i = 3 \<or> i = 8 then 2
      else if i = 7 then 6
      else if i = 4 \<or> i = 9 then 10
      else i)"

definition exRank :: "fiber_ref \<Rightarrow> nat" where
  "exRank i = (if i = 2 \<or> i = 3 \<or> i = 8 \<or> i = 6 \<or> i = 7 then 1 else 0)"

definition exDisabled :: "nat state" where
  "exDisabled = exState\<lparr>enabled := False\<rparr>"

definition exEnvAPI :: "nat env" where
  "exEnvAPI = exEnv\<lparr>enableEventAPI := True\<rparr>"

definition exEvent0 :: AnyNativeEvent where
  "exEvent0 = \<lparr>target = 300, timeStamp = 0\<rparr>"

definition exEvents :: "(listener \<times> AnyNativeEvent) list" where
  "exEvents =
     [(Listener DispatchInteractiveEvent ''click'' 1, exEvent 300),
      (Listener DispatchEvent ''scroll'' 1, exEvent 700),
      (Listener DispatchEvent ''load'' 1, exEvent 500),
      (Listener DispatchEvent ''load'' 1, exEvent 700)]"

section \<open>Lemmas\<close>

subsection \<open>The parent chain and the walk of findRootContainerNode\<close>

text \<open>
  The loop of \<open>findRootContainerNode\<close> returns exactly the end of the parent chain, for
  chains of any length; it returns nothing when the chain has no end.
\<close>

lemma chainTop_loop:
  "chainTop fibers a t \<Longrightarrow> findRootContainerNode_loop fibers a = Some t"
proof (induction rule: chainTop.induct)
  case (chainTop_top a)
  then show ?case by (subst findRootContainerNode_loop.simps) simp
next
  case (chainTop_parent a parent t)
  then show ?case by (subst findRootContainerNode_loop.simps) simp
qed

lemma loop_chainTop:
  assumes "findRootContainerNode_loop fibers a = Some t"
  shows "chainTop fibers a t"
proof (rule findRootContainerNode_loop.raw_induct[OF _ assms])
  fix walk :: "(nat \<Rightarrow> Fiber) \<Rightarrow> nat \<Rightarrow> nat option"
  fix fibers a t
  assume IH: "\<And>fibers a t. walk fibers a = Some t \<Longrightarrow> chainTop fibers a t"
    and body: "(case return (fibers a) of
        Some parent \<Rightarrow> walk fibers parent
      | None \<Rightarrow> Some a) = Some t"
  show "chainTop fibers a t"
  proof (cases "return (fibers a)")
    case None
    with body show ?thesis by (auto intro: chainTop.chainTop_top)
  next
    case (Some parent)
    with body have "walk fibers parent = Some t" by simp
    from IH[OF this] Some show ?thesis by (rule chainTop.chainTop_parent[rotated])
  qed
qed

lemma loop_eq_chainTop:
  "findRootContainerNode_loop fibers a = Some t \<longleftrightarrow> chainTop fibers a t"
  using chainTop_loop loop_chainTop by blast

lemma chainTop_unique:
  assumes "chainTop fibers a t" and "chainTop fibers a t'"
  shows "t = t'"
  using chainTop_loop[OF assms(1)] chainTop_loop[OF assms(2)] by simp

lemma findRootContainerNode_chainTop:
  assumes "chainTop (fiberAt E w) a t"
  shows "findRootContainerNode E w a =
           Some (if tag (fiberAt E w t) \<noteq> HostRoot E then None
                 else Some (containerInfo (fiberAt E w t)))"
  using chainTop_loop[OF assms] by (simp add: findRootContainerNode_def)

lemma findRootContainerNode_root:
  assumes "findRootContainerNode E w a = Some (Some root)"
  shows "\<exists>t. chainTop (fiberAt E w) a t \<and> tag (fiberAt E w t) = HostRoot E \<and>
              root = containerInfo (fiberAt E w t)"
proof -
  from assms obtain t where t: "findRootContainerNode_loop (fiberAt E w) a = Some t"
    by (auto simp: findRootContainerNode_def split: option.splits)
  with assms have "tag (fiberAt E w t) = HostRoot E \<and> root = containerInfo (fiberAt E w t)"
    by (auto simp: findRootContainerNode_def split: if_splits)
  with loop_chainTop[OF t] show ?thesis by blast
qed

lemma findRootContainerNode_mountedIn:
  assumes "findRootContainerNode E w a = Some (Some root)"
    and "getClosestInstanceFromNode E w root = Some c"
  shows "mountedIn E w a c"
  using findRootContainerNode_root[OF assms(1)] assms(2)
  by (auto intro: mountedIn.intros)

subsection \<open>The traversal loop\<close>

lemma appendAncestors_Nil: "appendAncestors bk [] s = s"
  by (simp add: appendAncestors_def)

lemma appendAncestors_Cons:
  "appendAncestors bk ((a, r) # ch) s =
     appendAncestors bk ch
       ((pushAncestor bk (Some a) s)\<lparr>calls := calls s @ [GetClosestInstanceFromNode r]\<rparr>)"
  by (simp add: appendAncestors_def pushAncestor_def)

lemma world_push: "world ((pushAncestor bk x s)\<lparr>calls := c\<rparr>) = world s"
  by (simp add: pushAncestor_def)

lemma ancestors_of_entryPoints:
  assumes "entryPoints E w a = Some ch"
  shows "\<forall>s. world s = w \<longrightarrow>
           handleTopLevel_ancestors E bk (Some a) s = Some (appendAncestors bk ch s)"
proof (rule entryPoints.raw_induct[OF _ assms], intro allI impI)
  fix ep :: "'a env \<Rightarrow> 'a \<Rightarrow> nat \<Rightarrow> (nat \<times> nat) list option"
  fix E w a ch and s :: "'a state"
  assume IH: "\<And>E w a ch. ep E w a = Some ch \<Longrightarrow>
                \<forall>s. world s = w \<longrightarrow>
                  handleTopLevel_ancestors E bk (Some a) s = Some (appendAncestors bk ch s)"
    and body: "(case findRootContainerNode E w a of
        None \<Rightarrow> None
      | Some None \<Rightarrow> Some []
      | Some (Some root) \<Rightarrow>
          (case getClosestInstanceFromNode E w root of
             None \<Rightarrow> Some [(a, root)]
           | Some outer \<Rightarrow> Option.bind (ep E w outer) (\<lambda>ch. Some ((a, root) # ch)))) = Some ch"
    and w: "world s = w"
  show "handleTopLevel_ancestors E bk (Some a) s = Some (appendAncestors bk ch s)"
  proof (cases "findRootContainerNode E w a")
    case None
    with body show ?thesis by simp
  next
    case (Some r)
    note r = this
    show ?thesis
    proof (cases r)
      case None
      with r body w show ?thesis
        by (subst handleTopLevel_ancestors.simps) (simp add: appendAncestors_Nil)
    next
      case (Some root)
      note root = this
      show ?thesis
      proof (cases "getClosestInstanceFromNode E w root")
        case None
        with root r body w show ?thesis
          by (subst handleTopLevel_ancestors.simps)
             (auto simp: appendAncestors_Cons appendAncestors_Nil)
      next
        case (Some outer)
        with root r body
        obtain ch' where ch': "ep E w outer = Some ch'" "ch = (a, root) # ch'"
          by (auto simp: bind_eq_Some_conv)
        have "handleTopLevel_ancestors E bk (Some outer)
                ((pushAncestor bk (Some a) s)\<lparr>calls := calls s @ [GetClosestInstanceFromNode root]\<rparr>)
              = Some (appendAncestors bk ch'
                ((pushAncestor bk (Some a) s)\<lparr>calls := calls s @ [GetClosestInstanceFromNode root]\<rparr>))"
          using IH[OF ch'(1)] w by (simp add: world_push)
        with Some root r w ch' show ?thesis
          by (subst handleTopLevel_ancestors.simps) (simp add: appendAncestors_Cons)
      qed
    qed
  qed
qed

lemma entryPoints_of_ancestors:
  assumes "handleTopLevel_ancestors E bk anc s = Some s1"
  shows "(case anc of None \<Rightarrow> s1 = pushAncestor bk None s
          | Some a \<Rightarrow> \<exists>ch. entryPoints E (world s) a = Some ch \<and> s1 = appendAncestors bk ch s)"
proof (rule handleTopLevel_ancestors.raw_induct[OF _ assms])
  fix h :: "'a env \<Rightarrow> nat \<Rightarrow> nat option \<Rightarrow> 'a state \<Rightarrow> 'a state option"
  fix E bk anc and s s1 :: "'a state"
  assume IH: "\<And>E bk anc s s1. h E bk anc s = Some s1 \<Longrightarrow>
          (case anc of None \<Rightarrow> s1 = pushAncestor bk None s
          | Some a \<Rightarrow> \<exists>ch. entryPoints E (world s) a = Some ch \<and> s1 = appendAncestors bk ch s)"
    and body: "(case anc of
        None \<Rightarrow> Some (pushAncestor bk None s)
      | Some inst \<Rightarrow>
          (case findRootContainerNode E (world s) inst of
             None \<Rightarrow> None
           | Some None \<Rightarrow> Some s
           | Some (Some root) \<Rightarrow>
               (case getClosestInstanceFromNode E (world s) root of
                  None \<Rightarrow>
                    Some ((pushAncestor bk (Some inst) s)
                            \<lparr>calls := calls s @ [GetClosestInstanceFromNode root]\<rparr>)
                | Some outer \<Rightarrow>
                    h E bk (Some outer)
                      ((pushAncestor bk (Some inst) s)
                         \<lparr>calls := calls s @ [GetClosestInstanceFromNode root]\<rparr>)))) = Some s1"
  show "(case anc of None \<Rightarrow> s1 = pushAncestor bk None s
          | Some a \<Rightarrow> \<exists>ch. entryPoints E (world s) a = Some ch \<and> s1 = appendAncestors bk ch s)"
  proof (cases anc)
    case None
    with body show ?thesis by simp
  next
    case (Some a)
    note a = this
    show ?thesis
    proof (cases "findRootContainerNode E (world s) a")
      case None
      with a body show ?thesis by simp
    next
      case (Some r)
      note r = this
      show ?thesis
      proof (cases r)
        case None
        with r a body show ?thesis
          by (subst entryPoints.simps) (simp add: appendAncestors_Nil)
      next
        case (Some root)
        note root = this
        show ?thesis
        proof (cases "getClosestInstanceFromNode E (world s) root")
          case None
          with root r a body show ?thesis
            by (subst entryPoints.simps) (auto simp: appendAncestors_Cons appendAncestors_Nil)
        next
          case (Some outer)
          with root r a body
          have "h E bk (Some outer)
                 ((pushAncestor bk (Some a) s)\<lparr>calls := calls s @ [GetClosestInstanceFromNode root]\<rparr>)
                = Some s1" by simp
          from IH[OF this] obtain ch where
            "entryPoints E (world s) outer = Some ch"
            "s1 = appendAncestors bk ch
               ((pushAncestor bk (Some a) s)\<lparr>calls := calls s @ [GetClosestInstanceFromNode root]\<rparr>)"
            by (auto simp: world_push)
          with Some root r a show ?thesis
            by (subst entryPoints.simps) (simp add: appendAncestors_Cons)
        qed
      qed
    qed
  qed
qed

lemma handleTopLevel_ancestors_Some:
  "handleTopLevel_ancestors E bk (Some a) s =
     map_option (\<lambda>ch. appendAncestors bk ch s) (entryPoints E (world s) a)"
proof (cases "entryPoints E (world s) a")
  case (Some ch)
  then show ?thesis using ancestors_of_entryPoints[OF Some, of bk] by simp
next
  case None
  show ?thesis
  proof (cases "handleTopLevel_ancestors E bk (Some a) s")
    case None
    with \<open>entryPoints E (world s) a = None\<close> show ?thesis by simp
  next
    case (Some s1)
    from entryPoints_of_ancestors[OF this] None show ?thesis by simp
  qed
qed

lemma handleTopLevel_ancestors_calls:
  assumes "handleTopLevel_ancestors E bk anc s = Some s1"
  shows "\<exists>pre. calls s1 = calls s @ pre \<and> (\<forall>c \<in> set pre. isResolution c) \<and>
           world s1 = world s \<and>
           (\<exists>more. ancestors (records s1 bk) = ancestors (records s bk) @ more \<and>
              (anc = None \<longrightarrow> more = [None]) \<and> (anc \<noteq> None \<longrightarrow> None \<notin> set more))"
proof (cases anc)
  case None
  with entryPoints_of_ancestors[OF assms] show ?thesis
    by (simp add: pushAncestor_def)
next
  case (Some a)
  with entryPoints_of_ancestors[OF assms] obtain ch where "s1 = appendAncestors bk ch s"
    by auto
  with Some show ?thesis
    by (auto simp: appendAncestors_def)
qed

lemma entryPoints_finiteNesting:
  assumes "finiteNesting E w rank"
  shows "\<exists>ch. entryPoints E w a = Some ch \<and> innermostFirst E w (map fst ch) \<and>
           (\<forall>root. findRootContainerNode E w a = Some (Some root) \<longrightarrow>
                (\<exists>rest. ch = (a, root) # rest))"
proof (induction "rank a" arbitrary: a rule: less_induct)
  case less
  have ends: "findRootContainerNode E w b \<noteq> None" for b
  proof -
    from assms have "\<exists>t. chainTop (fiberAt E w) b t"
      by (simp add: finiteNesting_def)
    then obtain t where "chainTop (fiberAt E w) b t" by blast
    from findRootContainerNode_chainTop[OF this] show ?thesis by simp
  qed
  from ends[of a] obtain r where r: "findRootContainerNode E w a = Some r" by blast
  show ?case
  proof (cases r)
    case None
    with r show ?thesis by (subst entryPoints.simps) simp
  next
    case (Some root)
    note root = this
    show ?thesis
    proof (cases "getClosestInstanceFromNode E w root")
      case None
      with r root show ?thesis by (subst entryPoints.simps) simp
    next
      case (Some outer)
      have m: "mountedIn E w a outer"
        by (rule findRootContainerNode_mountedIn[of E w a root]) (use r root Some in simp_all)
      with assms have "rank outer < rank a" by (simp add: finiteNesting_def)
      from less[OF this] obtain ch where
        ch: "entryPoints E w outer = Some ch" "innermostFirst E w (map fst ch)"
          "\<forall>root. findRootContainerNode E w outer = Some (Some root) \<longrightarrow>
              (\<exists>rest. ch = (outer, root) # rest)"
        by blast
      have inner: "innermostFirst E w (a # map fst ch)"
      proof (cases ch)
        case Nil
        then show ?thesis by simp
      next
        case (Cons p rest)
        from ends[of outer] obtain q where q: "findRootContainerNode E w outer = Some q"
          by blast
        have "q \<noteq> None"
        proof
          assume "q = None"
          with q have "entryPoints E w outer = Some []" by (subst entryPoints.simps) simp
          with ch(1) Cons show False by simp
        qed
        then obtain root' where "q = Some root'" by auto
        with q ch(3) Cons have "fst p = outer" by auto
        with Cons ch(2) m show ?thesis by simp
      qed
      show ?thesis using r root Some ch(1) inner
        by (subst entryPoints.simps) simp
    qed
  qed
qed

subsection \<open>The delivery loop\<close>

lemma handleTopLevel_dispatch_deliveries:
  "nativeEvent (records s bk) = Some ev \<Longrightarrow>
   handleTopLevel_dispatch E bk i s =
     delivered s (deliveries E (topLevelType (records s bk)) ev
                    (drop i (ancestors (records s bk))) (world s))"
proof (induction E bk i s rule: handleTopLevel_dispatch.induct)
  case (1 E bk i s)
  show ?case
  proof (cases "i < length (ancestors (records s bk))")
    case False
    then show ?thesis
      by (subst handleTopLevel_dispatch.simps) (simp add: delivered_def)
  next
    case True
    note i = this
    let ?x = "ancestors (records s bk) ! i"
    let ?c = "RunExtractedPluginEventsInBatch (topLevelType (records s bk)) ?x ev
                (getEventTarget E (world s) ev)"
    have dr: "drop i (ancestors (records s bk)) = ?x # drop (Suc i) (ancestors (records s bk))"
      using i by (simp add: Cons_nth_drop_Suc)
    show ?thesis
    proof (cases "runExtractedPluginEventsInBatch E (topLevelType (records s bk)) ?x ev
                    (getEventTarget E (world s) ev) (world s)")
      case (Inl p)
      then show ?thesis using i 1(2)
        by (subst handleTopLevel_dispatch.simps)
           (simp add: dr delivered_def split: prod.splits)
    next
      case (Inr w1)
      have "handleTopLevel_dispatch E bk (Suc i) (s\<lparr>world := w1, calls := calls s @ [?c]\<rparr>) =
            delivered (s\<lparr>world := w1, calls := calls s @ [?c]\<rparr>)
              (deliveries E (topLevelType (records s bk)) ev
                 (drop (Suc i) (ancestors (records s bk))) w1)"
        using 1(1)[OF i 1(2) Inr] 1(2) by simp
      then show ?thesis using i 1(2) Inr
        by (subst handleTopLevel_dispatch.simps)
           (simp add: dr delivered_def split: prod.splits sum.splits)
    qed
  qed
qed

lemma handleTopLevel_dispatch_calls:
  "\<exists>post. calls (final (handleTopLevel_dispatch E bk i s)) = calls s @ post \<and>
          (\<forall>c \<in> set post. isDelivery c) \<and>
          map deliveryTarget post = take (length post) (drop i (ancestors (records s bk))) \<and>
          records (final (handleTopLevel_dispatch E bk i s)) = records s"
proof (induction E bk i s rule: handleTopLevel_dispatch.induct)
  case (1 E bk i s)
  show ?case
  proof (cases "i < length (ancestors (records s bk))")
    case False
    then show ?thesis
      by (subst (1 2) handleTopLevel_dispatch.simps) (simp add: final_def)
  next
    case True
    note i = this
    show ?thesis
    proof (cases "nativeEvent (records s bk)")
      case None
      with i show ?thesis
        by (subst (1 2) handleTopLevel_dispatch.simps) (simp add: final_def)
    next
      case (Some ev)
      let ?x = "ancestors (records s bk) ! i"
      let ?c = "RunExtractedPluginEventsInBatch (topLevelType (records s bk)) ?x ev
                  (getEventTarget E (world s) ev)"
      have dr: "drop i (ancestors (records s bk)) = ?x # drop (Suc i) (ancestors (records s bk))"
        using i by (simp add: Cons_nth_drop_Suc)
      show ?thesis
      proof (cases "runExtractedPluginEventsInBatch E (topLevelType (records s bk)) ?x ev
                      (getEventTarget E (world s) ev) (world s)")
        case (Inl p)
        obtain e w where p: "p = (e, w)" by (cases p)
        have "handleTopLevel_dispatch E bk i s = Inl (e, s\<lparr>world := w, calls := calls s @ [?c]\<rparr>)"
          using i Some Inl p by (subst handleTopLevel_dispatch.simps) simp
        then show ?thesis
          by (intro exI[of _ "[?c]"]) (simp add: final_def dr)
      next
        case (Inr w)
        let ?s1 = "s\<lparr>world := w, calls := calls s @ [?c]\<rparr>"
        have eq: "handleTopLevel_dispatch E bk i s = handleTopLevel_dispatch E bk (Suc i) ?s1"
          using i Some Inr by (subst handleTopLevel_dispatch.simps) simp
        from 1[OF i Some Inr] obtain post where
          post: "calls (final (handleTopLevel_dispatch E bk (Suc i) ?s1)) = calls ?s1 @ post"
            "\<forall>c \<in> set post. isDelivery c"
            "map deliveryTarget post =
               take (length post) (drop (Suc i) (ancestors (records ?s1 bk)))"
            "records (final (handleTopLevel_dispatch E bk (Suc i) ?s1)) = records ?s1"
          by blast
        show ?thesis
          unfolding eq using post
          by (intro exI[of _ "?c # post"]) (simp add: dr)
      qed
    qed
  qed
qed

lemma deliveries_raise:
  "snd (deliveries E tlt ev xs w) = Inl (e, w1) \<Longrightarrow>
   \<exists>x w0. x \<in> set xs \<and>
     runExtractedPluginEventsInBatch E tlt x ev (getEventTarget E w0 ev) w0 = Inl (e, w1)"
proof (induction xs arbitrary: w)
  case Nil
  then show ?case by simp
next
  case (Cons x xs)
  show ?case
  proof (cases "runExtractedPluginEventsInBatch E tlt x ev (getEventTarget E w ev) w")
    case (Inl p)
    with Cons.prems show ?thesis by (cases p) auto
  next
    case (Inr w2)
    with Cons.prems have "snd (deliveries E tlt ev xs w2) = Inl (e, w1)"
      by (simp split: prod.splits)
    from Cons.IH[OF this] show ?thesis by auto
  qed
qed

lemma deliveries_env:
  assumes "runExtractedPluginEventsInBatch E = runExtractedPluginEventsInBatch E'"
    and "getEventTarget E = getEventTarget E'"
  shows "deliveries E tlt ev xs w = deliveries E' tlt ev xs w"
  using assms by (induction xs arbitrary: w) (simp_all split: sum.splits prod.splits)

lemma final_delivered:
  "final (delivered s d) =
     s\<lparr>world := (case snd d of Inl (e, w) \<Rightarrow> w | Inr w \<Rightarrow> w), calls := calls s @ fst d\<rparr>"
  by (simp add: final_def delivered_def split: prod.splits sum.splits)

lemma raised_delivered:
  "raised (delivered s d) = (case snd d of Inl (e, w) \<Rightarrow> Some e | Inr w \<Rightarrow> None)"
  by (simp add: raised_def delivered_def split: prod.splits sum.splits)

lemma delivered_Inl: "delivered s d = Inl (e, s2) \<Longrightarrow> snd d = Inl (e, world s2)"
  by (auto simp: delivered_def split: prod.splits sum.splits)

subsection \<open>handleTopLevel\<close>

lemma handleTopLevel_entries:
  assumes "nativeEvent (records s bk) = Some ev"
  shows "handleTopLevel E bk s =
     map_option
       (\<lambda>ch. delivered
          (if targetInst (records s bk) = None then pushAncestor bk None s
           else appendAncestors bk ch s)
          (deliveries E (topLevelType (records s bk)) ev
             (ancestors (records s bk) @
                (if targetInst (records s bk) = None then [None]
                 else map (\<lambda>p. Some (fst p)) ch))
             (world s)))
       (entries E (world s) (targetInst (records s bk)))"
proof (cases "targetInst (records s bk)")
  case None
  have "handleTopLevel_ancestors E bk None s = Some (pushAncestor bk None s)"
    by (subst handleTopLevel_ancestors.simps) simp
  with None assms show ?thesis
    by (simp add: handleTopLevel_def entries_def handleTopLevel_dispatch_deliveries
        pushAncestor_def)
next
  case (Some a)
  show ?thesis
  proof (cases "entryPoints E (world s) a")
    case None
    with Some show ?thesis
      by (simp add: handleTopLevel_def entries_def handleTopLevel_ancestors_Some)
  next
    case (Some ch)
    with \<open>targetInst (records s bk) = Some a\<close> assms show ?thesis
      by (simp add: handleTopLevel_def entries_def handleTopLevel_ancestors_Some
          handleTopLevel_dispatch_deliveries appendAncestors_def)
  qed
qed

lemma handleTopLevel_calls:
  assumes "handleTopLevel E bk s = Some r"
  shows "\<exists>mid. calls (final r) = calls s @ mid \<and>
           (\<forall>c \<in> set mid. isResolution c \<or> isDelivery c)"
proof -
  from assms obtain s1 where
    s1: "handleTopLevel_ancestors E bk (targetInst (records s bk)) s = Some s1"
    and r: "r = handleTopLevel_dispatch E bk 0 s1"
    by (auto simp: handleTopLevel_def split: option.splits)
  from handleTopLevel_ancestors_calls[OF s1] obtain pre where
    pre: "calls s1 = calls s @ pre" "\<forall>c \<in> set pre. isResolution c"
    by blast
  from handleTopLevel_dispatch_calls[of E bk 0 s1] obtain post where
    post: "calls (final (handleTopLevel_dispatch E bk 0 s1)) = calls s1 @ post"
      "\<forall>c \<in> set post. isDelivery c"
    by blast
  show ?thesis using pre post r
    by (intro exI[of _ "pre @ post"]) auto
qed

lemma handleTopLevel_raise:
  assumes "nativeEvent (records s bk) = Some ev" and "handleTopLevel E bk s = Some (Inl (e, s2))"
  shows "\<exists>xs w. snd (deliveries E (topLevelType (records s bk)) ev xs w) = Inl (e, world s2)"
proof -
  from assms(2) obtain ch where
    "delivered
          (if targetInst (records s bk) = None then pushAncestor bk None s
           else appendAncestors bk ch s)
          (deliveries E (topLevelType (records s bk)) ev
             (ancestors (records s bk) @
                (if targetInst (records s bk) = None then [None]
                 else map (\<lambda>p. Some (fst p)) ch))
             (world s)) = Inl (e, s2)"
    unfolding handleTopLevel_entries[OF assms(1)] by blast
  from delivered_Inl[OF this] show ?thesis by blast
qed

lemma handleTopLevel_absent:
  assumes "targetInst (records s bk) = None" and "ancestors (records s bk) = []"
    and "nativeEvent (records s bk) = Some ev"
  shows "handleTopLevel E bk s =
           Some (case runExtractedPluginEventsInBatch E (topLevelType (records s bk)) None ev
                        (getEventTarget E (world s) ev) (world s) of
                   Inl (e, w) \<Rightarrow>
                     Inl (e, (pushAncestor bk None s)
                           \<lparr>world := w,
                            calls := calls s @
                              [RunExtractedPluginEventsInBatch (topLevelType (records s bk)) None
                                 ev (getEventTarget E (world s) ev)]\<rparr>)
                 | Inr w \<Rightarrow>
                     Inr ((pushAncestor bk None s)
                           \<lparr>world := w,
                            calls := calls s @
                              [RunExtractedPluginEventsInBatch (topLevelType (records s bk)) None
                                 ev (getEventTarget E (world s) ev)]\<rparr>))"
proof -
  have d: "handleTopLevel E bk s = Some (delivered (pushAncestor bk None s)
      (deliveries E (topLevelType (records s bk)) ev [None] (world s)))"
    using assms by (simp add: handleTopLevel_entries entries_def)
  show ?thesis unfolding d
    by (simp add: delivered_def pushAncestor_def split: sum.splits prod.splits)
qed

lemma handleTopLevel_absent_calls:
  assumes "targetInst (records s bk) = None" and "ancestors (records s bk) = []"
    and "nativeEvent (records s bk) = Some ev"
  shows "\<exists>r. handleTopLevel E bk s = Some r \<and>
           calls (final r) = calls s @
             [RunExtractedPluginEventsInBatch (topLevelType (records s bk)) None ev
                (getEventTarget E (world s) ev)]"
  unfolding handleTopLevel_absent[OF assms]
  by (cases "runExtractedPluginEventsInBatch E (topLevelType (records s bk)) None ev
                (getEventTarget E (world s) ev) (world s)")
     (auto simp: final_def)

lemma handleTopLevel_sameModule:
  assumes "nativeEvent (records s bk) = Some ev" and "handleTopLevel E bk s = Some r"
  shows "sameModule bk s (final r)"
  using assms
  by (auto simp: handleTopLevel_entries final_delivered sameModule_def pushAncestor_def
      appendAncestors_def split: if_splits)

lemma handleTopLevel_sameOutcome:
  assumes "records s bk = records u bk'" and "nativeEvent (records s bk) = Some ev"
    and "enabled s = enabled u" and "world s = world u" and "calls s = calls u"
  shows "rel_option sameOutcome (handleTopLevel E bk s) (handleTopLevel E bk' u)"
proof -
  have u: "nativeEvent (records u bk') = Some ev" using assms by simp
  show ?thesis
    unfolding handleTopLevel_entries[OF assms(2)] handleTopLevel_entries[OF u]
    using assms(1,3,4,5)
    by (cases "entries E (world u) (targetInst (records u bk'))")
       (simp_all add: sameOutcome_def final_delivered raised_delivered pushAncestor_def
          appendAncestors_def)
qed

subsection \<open>The pool\<close>

lemma getTopLevelCallbackBookKeeping_poolInv:
  assumes "poolInv s" and "getTopLevelCallbackBookKeeping tlt ev inst s = (bk, s1)"
  shows "records s1 bk =
           \<lparr>topLevelType = Some tlt, nativeEvent = Some ev, targetInst = inst, ancestors = []\<rparr>"
    and "poolInv s1" and "inUse bk s1" and "sameOutside s s1"
proof -
  show "records s1 bk =
           \<lparr>topLevelType = Some tlt, nativeEvent = Some ev, targetInst = inst, ancestors = []\<rparr>"
    using assms
    by (auto simp: getTopLevelCallbackBookKeeping_def poolInv_def cleared_def Let_def
        split: if_splits)
  show "sameOutside s s1" using assms
    by (auto simp: getTopLevelCallbackBookKeeping_def sameOutside_def Let_def split: if_splits)
  show "inUse bk s1"
  proof (cases "callbackBookkeepingPool s = []")
    case True
    with assms show ?thesis
      by (auto simp: getTopLevelCallbackBookKeeping_def inUse_def)
  next
    case False
    then have sp: "callbackBookkeepingPool s = butlast (callbackBookkeepingPool s) @ [last (callbackBookkeepingPool s)]"
      by simp
    have "distinct (butlast (callbackBookkeepingPool s) @ [last (callbackBookkeepingPool s)])"
      using assms(1) sp by (simp add: poolInv_def)
    then have "last (callbackBookkeepingPool s) \<notin> set (butlast (callbackBookkeepingPool s))"
      by simp
    moreover have "last (callbackBookkeepingPool s) < allocated s"
      using assms(1) False by (simp add: poolInv_def)
    ultimately show ?thesis using assms False
      by (auto simp: getTopLevelCallbackBookKeeping_def inUse_def Let_def)
  qed
  show "poolInv s1"
  proof (cases "callbackBookkeepingPool s = []")
    case True
    with assms show ?thesis
      by (auto simp: getTopLevelCallbackBookKeeping_def poolInv_def)
  next
    case False
    then have sp: "callbackBookkeepingPool s = butlast (callbackBookkeepingPool s) @ [last (callbackBookkeepingPool s)]"
      by simp
    have d: "distinct (butlast (callbackBookkeepingPool s) @ [last (callbackBookkeepingPool s)])"
      using assms(1) sp by (simp add: poolInv_def)
    have sub: "set (butlast (callbackBookkeepingPool s)) \<subseteq> set (callbackBookkeepingPool s)"
      by (meson in_set_butlastD subsetI)
    from d have "last (callbackBookkeepingPool s) \<notin> set (butlast (callbackBookkeepingPool s))"
      and "distinct (butlast (callbackBookkeepingPool s))"
      by simp_all
    then show ?thesis using assms False sub
      by (auto simp: getTopLevelCallbackBookKeeping_def poolInv_def Let_def)
  qed
qed

lemma releaseTopLevelCallbackBookKeeping_poolInv:
  assumes "poolInv s" and "inUse bk s"
  shows "poolInv (releaseTopLevelCallbackBookKeeping bk s)"
    and "records (releaseTopLevelCallbackBookKeeping bk s) bk = cleared"
    and "sameOutside s (releaseTopLevelCallbackBookKeeping bk s)"
  using assms
  by (auto simp: releaseTopLevelCallbackBookKeeping_def poolInv_def inUse_def cleared_def
      sameOutside_def Let_def)

lemma sameModule_poolInv:
  assumes "poolInv s" and "inUse bk s" and "sameModule bk s s1"
  shows "poolInv s1" and "inUse bk s1"
  using assms by (auto simp: poolInv_def inUse_def sameModule_def)

lemma poolInv_calls [simp]: "poolInv (s\<lparr>calls := c\<rparr>) = poolInv s"
  by (simp add: poolInv_def)

lemma poolInv_world [simp]: "poolInv (s\<lparr>world := w\<rparr>) = poolInv s"
  by (simp add: poolInv_def)

subsection \<open>Dispatch through the plugin event system\<close>

lemma batchedEventUpdates_sameModule:
  assumes "nativeEvent (records s bk) = Some ev"
    and "batchedEventUpdates E (handleTopLevel E) bk s = Some r"
  shows "sameModule bk s (final r)"
proof -
  let ?s0 = "s\<lparr>world := batchedEventUpdatesBefore E (world s),
               calls := calls s @ [BatchedEventUpdates (records s bk)]\<rparr>"
  from assms(2) obtain r0 where r0: "handleTopLevel E bk ?s0 = Some r0"
    by (auto simp: batchedEventUpdates_def split: option.splits)
  have "sameModule bk ?s0 (final r0)"
    using handleTopLevel_sameModule[OF _ r0] assms(1) by simp
  moreover have "sameModule bk (final r0) (final r)"
    using assms(2) r0
    by (auto simp: batchedEventUpdates_def sameModule_def final_def split: sum.splits)
  ultimately show ?thesis by (simp add: sameModule_def)
qed

lemma batchedEventUpdates_sameOutcome:
  assumes "records s bk = records u bk'" and "nativeEvent (records s bk) = Some ev"
    and "enabled s = enabled u" and "world s = world u" and "calls s = calls u"
  shows "rel_option sameOutcome (batchedEventUpdates E (handleTopLevel E) bk s)
           (batchedEventUpdates E (handleTopLevel E) bk' u)"
proof -
  let ?s0 = "s\<lparr>world := batchedEventUpdatesBefore E (world s),
               calls := calls s @ [BatchedEventUpdates (records s bk)]\<rparr>"
  let ?u0 = "u\<lparr>world := batchedEventUpdatesBefore E (world u),
               calls := calls u @ [BatchedEventUpdates (records u bk')]\<rparr>"
  have "rel_option sameOutcome (handleTopLevel E bk ?s0) (handleTopLevel E bk' ?u0)"
    by (rule handleTopLevel_sameOutcome[where ev = ev]) (use assms in simp_all)
  then show ?thesis
    by (cases "handleTopLevel E bk ?s0"; cases "handleTopLevel E bk' ?u0")
       (auto simp: batchedEventUpdates_def sameOutcome_def final_def raised_def
          split: sum.splits)
qed

lemma dispatchEventForPluginEventSystem_poolInv:
  assumes "poolInv s" and "dispatchEventForPluginEventSystem E tlt flags ev inst s = Some r"
  shows "poolInv (final r)" and "enabled (final r) = enabled s"
proof -
  obtain bk s1 where acq: "getTopLevelCallbackBookKeeping tlt ev inst s = (bk, s1)"
    by (cases "getTopLevelCallbackBookKeeping tlt ev inst s")
  note a = getTopLevelCallbackBookKeeping_poolInv[OF assms(1) acq]
  from assms(2) acq obtain r1 where
    r1: "batchedEventUpdates E (handleTopLevel E) bk s1 = Some r1"
    and r: "final r = releaseTopLevelCallbackBookKeeping bk (final r1)"
    by (auto simp: dispatchEventForPluginEventSystem_def final_def
        split: option.splits sum.splits)
  have sm: "sameModule bk s1 (final r1)"
    using batchedEventUpdates_sameModule[OF _ r1] a(1) by simp
  note b = sameModule_poolInv[OF a(2) a(3) sm]
  show "poolInv (final r)"
    using releaseTopLevelCallbackBookKeeping_poolInv(1)[OF b] r by simp
  show "enabled (final r) = enabled s"
    using releaseTopLevelCallbackBookKeeping_poolInv(3)[OF b] r sm a(4)
    by (simp add: sameOutside_def sameModule_def)
qed

lemma dispatchEventForPluginEventSystem_calls:
  assumes "poolInv s" and "getTopLevelCallbackBookKeeping tlt ev inst s = (bk, s1)"
    and "dispatchEventForPluginEventSystem E tlt flags ev inst s = Some r"
  shows "\<exists>r0. handleTopLevel E bk
             (s1\<lparr>world := batchedEventUpdatesBefore E (world s),
                 calls := calls s @
                   [BatchedEventUpdates \<lparr>topLevelType = Some tlt, nativeEvent = Some ev,
                      targetInst = inst, ancestors = []\<rparr>]\<rparr>) = Some r0 \<and>
           calls (final r) = calls (final r0) @ [BatchedEventUpdatesReturn] \<and>
           raised r = raised r0"
proof -
  note a = getTopLevelCallbackBookKeeping_poolInv[OF assms(1,2)]
  let ?s0 = "s1\<lparr>world := batchedEventUpdatesBefore E (world s1),
               calls := calls s1 @ [BatchedEventUpdates (records s1 bk)]\<rparr>"
  have eq: "?s0 = s1\<lparr>world := batchedEventUpdatesBefore E (world s),
                 calls := calls s @
                   [BatchedEventUpdates \<lparr>topLevelType = Some tlt, nativeEvent = Some ev,
                      targetInst = inst, ancestors = []\<rparr>]\<rparr>"
    using a(1,4) by (simp add: sameOutside_def)
  from assms(2,3) obtain r0 where r0: "handleTopLevel E bk ?s0 = Some r0"
    by (auto simp: dispatchEventForPluginEventSystem_def batchedEventUpdates_def
        split: option.splits)
  have "calls (final r) = calls (final r0) @ [BatchedEventUpdatesReturn] \<and>
        raised r = raised r0"
    using assms(2,3) r0
    by (cases r0)
       (auto simp: dispatchEventForPluginEventSystem_def batchedEventUpdates_def final_def
          raised_def releaseTopLevelCallbackBookKeeping_def Let_def)
  with r0 show ?thesis unfolding eq by blast
qed

lemma plugin_sameOutcome:
  assumes "poolInv s" and "enabled s = enabled u" and "world s = world u"
    and "calls s = calls u"
  shows "rel_option sameOutcome
           (dispatchEventForPluginEventSystem E tlt flags ev inst s)
           (dispatchEventForPluginEventSystem_alwaysAllocate E tlt flags ev inst u)"
proof -
  obtain bk s1 where acq: "getTopLevelCallbackBookKeeping tlt ev inst s = (bk, s1)"
    by (cases "getTopLevelCallbackBookKeeping tlt ev inst s")
  note a = getTopLevelCallbackBookKeeping_poolInv[OF assms(1) acq]
  let ?u1 = "u\<lparr>records := (records u)(allocated u :=
           \<lparr>topLevelType = Some tlt, nativeEvent = Some ev, targetInst = inst,
            ancestors = []\<rparr>),
        allocated := Suc (allocated u)\<rparr>"
  have rel: "rel_option sameOutcome (batchedEventUpdates E (handleTopLevel E) bk s1)
               (batchedEventUpdates E (handleTopLevel E) (allocated u) ?u1)"
    by (rule batchedEventUpdates_sameOutcome[where ev = ev])
       (use a(1,4) assms(2-4) in \<open>simp_all add: sameOutside_def\<close>)
  show ?thesis
  proof (cases "batchedEventUpdates E (handleTopLevel E) bk s1")
    case None
    with rel have "batchedEventUpdates E (handleTopLevel E) (allocated u) ?u1 = None"
      by (cases "batchedEventUpdates E (handleTopLevel E) (allocated u) ?u1") simp_all
    with None acq show ?thesis
      by (simp add: dispatchEventForPluginEventSystem_def
          dispatchEventForPluginEventSystem_alwaysAllocate_def
          getTopLevelCallbackBookKeeping_alwaysAllocate_def)
  next
    case (Some r1)
    with rel obtain r2 where
      r2: "batchedEventUpdates E (handleTopLevel E) (allocated u) ?u1 = Some r2"
      and so: "sameOutcome r1 r2"
      by (cases "batchedEventUpdates E (handleTopLevel E) (allocated u) ?u1") simp_all
    have sm: "sameModule bk s1 (final r1)"
      using batchedEventUpdates_sameModule[OF _ Some] a(1) by simp
    note b = sameModule_poolInv[OF a(2) a(3) sm]
    note c = releaseTopLevelCallbackBookKeeping_poolInv(3)[OF b]
    show ?thesis using Some r2 so acq c
      by (auto simp: dispatchEventForPluginEventSystem_def
          dispatchEventForPluginEventSystem_alwaysAllocate_def
          getTopLevelCallbackBookKeeping_alwaysAllocate_def
          releaseTopLevelCallbackBookKeeping_alwaysAllocate_def
          sameOutcome_def sameOutside_def final_def raised_def split: sum.splits)
  qed
qed

subsection \<open>dispatchEvent and the listeners\<close>

lemma callResponderEventSystem_sameOutcome:
  assumes "enabled s = enabled u" and "world s = world u" and "calls s = calls u"
  shows "sameOutcome (callResponderEventSystem E tlt inst ev tgt flags s)
           (callResponderEventSystem E tlt inst ev tgt flags u)"
  using assms
  by (auto simp: callResponderEventSystem_def sameOutcome_def final_def raised_def
      split: sum.splits)

lemma callResponderEventSystem_poolInv:
  "poolInv s \<Longrightarrow> poolInv (final (callResponderEventSystem E tlt inst ev tgt flags s))"
  by (auto simp: callResponderEventSystem_def poolInv_def final_def split: sum.splits)

lemma dispatchEvent_poolInv:
  assumes "poolInv s" and "dispatchEvent E tlt flags ev s = Some r"
  shows "poolInv (final r)"
proof (cases "enabled s")
  case False
  with assms show ?thesis by (auto simp: dispatchEvent_def final_def)
next
  case True
  with assms show ?thesis
    by (auto simp: dispatchEvent_def Let_def callResponderEventSystem_poolInv
        split: if_splits intro: dispatchEventForPluginEventSystem_poolInv(1)[rotated])
qed

lemma dispatchEvent_sameOutcome:
  assumes "poolInv s" and "enabled s = enabled u" and "world s = world u"
    and "calls s = calls u"
  shows "rel_option sameOutcome (dispatchEvent E tlt flags ev s)
           (dispatchEvent_alwaysAllocate E tlt flags ev u)"
proof (cases "enabled s")
  case False
  with assms show ?thesis
    by (simp add: dispatchEvent_def dispatchEvent_alwaysAllocate_def sameOutcome_def
        final_def raised_def)
next
  case True
  let ?t = "getEventTarget E (world s) ev"
  let ?s1 = "s\<lparr>calls := calls s @ [GetClosestInstanceFromNode ?t]\<rparr>"
  let ?u1 = "u\<lparr>calls := calls u @ [GetClosestInstanceFromNode ?t]\<rparr>"
  have p: "\<And>inst. rel_option sameOutcome
           (dispatchEventForPluginEventSystem E tlt flags ev inst ?s1)
           (dispatchEventForPluginEventSystem_alwaysAllocate E tlt flags ev inst ?u1)"
    by (rule plugin_sameOutcome) (use assms in simp_all)
  have q: "\<And>inst. sameOutcome (callResponderEventSystem E tlt inst ev ?t flags ?s1)
           (callResponderEventSystem E tlt inst ev ?t flags ?u1)"
    by (rule callResponderEventSystem_sameOutcome) (use assms in simp_all)
  have e: "enabled u" using True assms(2) by simp
  define i where "i = (case getClosestInstanceFromNode E (world u) (getEventTarget E (world u) ev) of
                       None \<Rightarrow> None
                     | Some found \<Rightarrow>
                         if \<not> isFiberMounted E (world u) found then None else Some found)"
  have l: "dispatchEvent E tlt flags ev s =
      (if enableEventAPI E then
         (if flags = PLUGIN_EVENT_SYSTEM E then
            dispatchEventForPluginEventSystem E tlt flags ev i ?s1
          else Some (callResponderEventSystem E tlt i ev ?t flags ?s1))
       else dispatchEventForPluginEventSystem E tlt flags ev i ?s1)"
    unfolding dispatchEvent_def Let_def i_def assms(3) using True by simp
  have r: "dispatchEvent_alwaysAllocate E tlt flags ev u =
      (if enableEventAPI E then
         (if flags = PLUGIN_EVENT_SYSTEM E then
            dispatchEventForPluginEventSystem_alwaysAllocate E tlt flags ev i ?u1
          else Some (callResponderEventSystem E tlt i ev ?t flags ?u1))
       else dispatchEventForPluginEventSystem_alwaysAllocate E tlt flags ev i ?u1)"
    unfolding dispatchEvent_alwaysAllocate_def Let_def i_def assms(3) using e by simp
  show ?thesis unfolding l r using p[of i] q[of i] by auto
qed

lemma discreteUpdates_poolInv:
  assumes "\<And>s r. poolInv s \<Longrightarrow> fn a b c s = Some r \<Longrightarrow> poolInv (final r)"
    and "poolInv s" and "discreteUpdates E fn a b c s = Some r"
  shows "poolInv (final r)"
proof -
  let ?s0 = "s\<lparr>world := discreteUpdatesBefore E (world s),
               calls := calls s @ [DiscreteUpdates a b c]\<rparr>"
  from assms(3) obtain r0 where r0: "fn a b c ?s0 = Some r0"
    by (auto simp: discreteUpdates_def split: option.splits)
  have "poolInv (final r0)" using assms(1)[OF _ r0] assms(2) by simp
  then show ?thesis using assms(3) r0
    by (auto simp: discreteUpdates_def final_def split: sum.splits)
qed

lemma discreteUpdates_sameOutcome:
  assumes "\<And>s u. poolInv s \<Longrightarrow> enabled s = enabled u \<Longrightarrow> world s = world u \<Longrightarrow>
              calls s = calls u \<Longrightarrow> rel_option sameOutcome (f a b c s) (g a b c u)"
    and "poolInv s" and "enabled s = enabled u" and "world s = world u" and "calls s = calls u"
  shows "rel_option sameOutcome (discreteUpdates E f a b c s) (discreteUpdates E g a b c u)"
proof -
  let ?s0 = "s\<lparr>world := discreteUpdatesBefore E (world s),
               calls := calls s @ [DiscreteUpdates a b c]\<rparr>"
  let ?u0 = "u\<lparr>world := discreteUpdatesBefore E (world u),
               calls := calls u @ [DiscreteUpdates a b c]\<rparr>"
  have "rel_option sameOutcome (f a b c ?s0) (g a b c ?u0)"
    by (rule assms(1)) (use assms(2-5) in simp_all)
  then show ?thesis
    by (cases "f a b c ?s0"; cases "g a b c ?u0")
       (auto simp: discreteUpdates_def sameOutcome_def final_def raised_def split: sum.splits)
qed

lemma beforeDiscreteUpdates_poolInv:
  "poolInv s \<Longrightarrow> poolInv (beforeDiscreteUpdates E ev s)"
  by (simp add: beforeDiscreteUpdates_def callFlushDiscreteUpdates_def split: prod.splits)

lemma beforeDiscreteUpdates_same:
  assumes "enabled s = enabled u" and "world s = world u" and "calls s = calls u"
  shows "enabled (beforeDiscreteUpdates E ev s) = enabled (beforeDiscreteUpdates E ev u)"
    and "world (beforeDiscreteUpdates E ev s) = world (beforeDiscreteUpdates E ev u)"
    and "calls (beforeDiscreteUpdates E ev s) = calls (beforeDiscreteUpdates E ev u)"
  using assms
  by (simp_all add: beforeDiscreteUpdates_def callFlushDiscreteUpdates_def split: prod.splits)

lemma dispatchInteractiveEvent_before:
  "dispatchInteractiveEvent E tlt flags ev s =
     discreteUpdates E (dispatchEvent E) tlt flags ev (beforeDiscreteUpdates E ev s)"
  by (simp only: dispatchInteractiveEvent_def beforeDiscreteUpdates_def)

lemma dispatchInteractiveEvent_alwaysAllocate_before:
  "dispatchInteractiveEvent_alwaysAllocate E tlt flags ev s =
     discreteUpdates E (dispatchEvent_alwaysAllocate E) tlt flags ev
       (beforeDiscreteUpdates E ev s)"
  by (simp only: dispatchInteractiveEvent_alwaysAllocate_def beforeDiscreteUpdates_def)

lemma dispatchInteractiveEvent_poolInv:
  assumes "poolInv s" and "dispatchInteractiveEvent E tlt flags ev s = Some r"
  shows "poolInv (final r)"
proof (rule discreteUpdates_poolInv)
  show "discreteUpdates E (dispatchEvent E) tlt flags ev (beforeDiscreteUpdates E ev s) = Some r"
    using assms(2) by (simp only: dispatchInteractiveEvent_before)
  show "poolInv (beforeDiscreteUpdates E ev s)"
    by (rule beforeDiscreteUpdates_poolInv[OF assms(1)])
  show "\<And>s r. poolInv s \<Longrightarrow> dispatchEvent E tlt flags ev s = Some r \<Longrightarrow> poolInv (final r)"
    by (rule dispatchEvent_poolInv)
qed

lemma dispatchInteractiveEvent_sameOutcome:
  assumes "poolInv s" and "enabled s = enabled u" and "world s = world u"
    and "calls s = calls u"
  shows "rel_option sameOutcome (dispatchInteractiveEvent E tlt flags ev s)
           (dispatchInteractiveEvent_alwaysAllocate E tlt flags ev u)"
  unfolding dispatchInteractiveEvent_before dispatchInteractiveEvent_alwaysAllocate_before
proof (rule discreteUpdates_sameOutcome)
  show "poolInv (beforeDiscreteUpdates E ev s)"
    by (rule beforeDiscreteUpdates_poolInv[OF assms(1)])
  show "enabled (beforeDiscreteUpdates E ev s) = enabled (beforeDiscreteUpdates E ev u)"
    by (rule beforeDiscreteUpdates_same[OF assms(2-4)])
  show "world (beforeDiscreteUpdates E ev s) = world (beforeDiscreteUpdates E ev u)"
    by (rule beforeDiscreteUpdates_same[OF assms(2-4)])
  show "calls (beforeDiscreteUpdates E ev s) = calls (beforeDiscreteUpdates E ev u)"
    by (rule beforeDiscreteUpdates_same[OF assms(2-4)])
  show "\<And>s u. poolInv s \<Longrightarrow> enabled s = enabled u \<Longrightarrow> world s = world u \<Longrightarrow>
          calls s = calls u \<Longrightarrow>
          rel_option sameOutcome (dispatchEvent E tlt flags ev s)
            (dispatchEvent_alwaysAllocate E tlt flags ev u)"
    by (rule dispatchEvent_sameOutcome)
qed

lemma callListener_poolInv:
  assumes "poolInv s" and "callListener E l ev s = Some r"
  shows "poolInv (final r)"
proof (cases l)
  case (Listener d tlt flags)
  with assms show ?thesis
    by (cases d) (simp_all add: dispatchEvent_poolInv dispatchInteractiveEvent_poolInv)
qed

lemma callListener_sameOutcome:
  assumes "poolInv s" and "enabled s = enabled u" and "world s = world u"
    and "calls s = calls u"
  shows "rel_option sameOutcome (callListener E l ev s) (callListener_alwaysAllocate E l ev u)"
proof (cases l)
  case (Listener d tlt flags)
  with assms show ?thesis
    by (cases d) (simp_all add: dispatchEvent_sameOutcome dispatchInteractiveEvent_sameOutcome)
qed

subsection \<open>The example world\<close>

lemma exEnv_fields:
  "HostRoot exEnv = 3" "PLUGIN_EVENT_SYSTEM exEnv = 1" "enableEventAPI exEnv = False"
  "fiberAt exEnv = exFiberAt" "getClosestInstanceFromNode exEnv = exClosest"
  "isFiberMounted exEnv w i = (i \<noteq> 5)" "getEventTarget exEnv w ev = target ev"
  "isInteractiveTopLevelEventType exEnv tlt = (tlt = ''click'')"
  "getRawEventName exEnv tlt = tlt"
  by (simp_all add: exEnv_def)

lemma exFindRoot:
  "findRootContainerNode exEnv 0 b =
     (if b = 0 \<or> b = 1 \<or> b = 5 \<or> b = 11 then Some (Some 100)
      else if b = 2 \<or> b = 3 \<or> b = 8 then Some (Some 200)
      else if b = 6 \<or> b = 7 then Some (Some 400) else Some None)"
  by (simp add: findRootContainerNode_def findRootContainerNode_loop.simps exEnv_fields
      exFiberAt_def)

text \<open>The parent chains of the example, from the \<open>return\<close> links.\<close>

lemma exChainTop: "chainTop (exFiberAt 0) b (exTopOf b)"
proof -
  have c0: "chainTop (exFiberAt 0) 0 0"
    by (rule chainTop.chainTop_top) (simp add: exFiberAt_def)
  have c2: "chainTop (exFiberAt 0) 2 2"
    by (rule chainTop.chainTop_top) (simp add: exFiberAt_def)
  have c6: "chainTop (exFiberAt 0) 6 6"
    by (rule chainTop.chainTop_top) (simp add: exFiberAt_def)
  have c10: "chainTop (exFiberAt 0) 10 10"
    by (rule chainTop.chainTop_top) (simp add: exFiberAt_def)
  have c11: "chainTop (exFiberAt 0) 11 0"
    by (rule chainTop.chainTop_parent[OF _ c0]) (simp add: exFiberAt_def)
  have c1: "chainTop (exFiberAt 0) 1 0"
    by (rule chainTop.chainTop_parent[OF _ c11]) (simp add: exFiberAt_def)
  have c5: "chainTop (exFiberAt 0) 5 0"
    by (rule chainTop.chainTop_parent[OF _ c0]) (simp add: exFiberAt_def)
  have c8: "chainTop (exFiberAt 0) 8 2"
    by (rule chainTop.chainTop_parent[OF _ c2]) (simp add: exFiberAt_def)
  have c3: "chainTop (exFiberAt 0) 3 2"
    by (rule chainTop.chainTop_parent[OF _ c8]) (simp add: exFiberAt_def)
  have c7: "chainTop (exFiberAt 0) 7 6"
    by (rule chainTop.chainTop_parent[OF _ c6]) (simp add: exFiberAt_def)
  have c9: "chainTop (exFiberAt 0) 9 10"
    by (rule chainTop.chainTop_parent[OF _ c10]) (simp add: exFiberAt_def)
  have c4: "chainTop (exFiberAt 0) 4 10"
    by (rule chainTop.chainTop_parent[OF _ c9]) (simp add: exFiberAt_def)
  have other: "chainTop (exFiberAt 0) b b"
    if "b \<notin> {1, 3, 4, 5, 7, 8, 9, 11}"
    by (rule chainTop.chainTop_top) (use that in \<open>simp add: exFiberAt_def\<close>)
  show ?thesis
    using c1 c3 c4 c5 c7 c8 c9 c11 other by (auto simp: exTopOf_def)
qed

lemma exChain3: "chainTop (fiberAt exEnv 0) 3 2"
  using exChainTop[of 3] by (simp add: exEnv_fields exTopOf_def)

lemma exChain1: "chainTop (fiberAt exEnv 0) 1 0"
  using exChainTop[of 1] by (simp add: exEnv_fields exTopOf_def)

lemma exChain4: "chainTop (fiberAt exEnv 0) 4 10"
  using exChainTop[of 4] by (simp add: exEnv_fields exTopOf_def)

lemma exChain7: "chainTop (fiberAt exEnv 0) 7 6"
  using exChainTop[of 7] by (simp add: exEnv_fields exTopOf_def)

lemma exFiniteNesting: "finiteNesting exEnv 0 exRank"
  unfolding finiteNesting_def
proof (intro conjI allI impI)
  fix b show "\<exists>t. chainTop (fiberAt exEnv 0) b t"
    using exChainTop[of b] by (auto simp: exEnv_fields)
next
  fix b c assume "mountedIn exEnv 0 b c"
  then obtain t where t: "chainTop (exFiberAt 0) b t" "tag (exFiberAt 0 t) = 3"
    "exClosest 0 (containerInfo (exFiberAt 0 t)) = Some c"
    by (auto elim!: mountedIn.cases simp: exEnv_fields)
  from chainTop_unique[OF t(1) exChainTop] have "t = exTopOf b" .
  with t(2,3) show "exRank c < exRank b"
    by (auto simp: exTopOf_def exFiberAt_def exClosest_def exRank_def split: if_splits)
qed

lemma exEntryPoints: "entryPoints exEnv 0 3 = Some [(3, 200), (1, 100)]"
  by (simp add: entryPoints.simps exFindRoot exEnv_fields exClosest_def)

lemma exAcquired_record:
  "records (exAcquired inst) 0 =
     \<lparr>topLevelType = Some ''click'', nativeEvent = Some (exEvent 300), targetInst = inst,
      ancestors = []\<rparr>"
  "world (exAcquired inst) = 0" "calls (exAcquired inst) = []"
  by (simp_all add: exAcquired_def getTopLevelCallbackBookKeeping_def exState_def)

lemma poolInv_exState: "poolInv exState"
  by (simp add: poolInv_def exState_def)

lemma poolInv_exPooled: "poolInv exPooled"
  by (simp add: poolInv_def exPooled_def exState_def cleared_def
      CALLBACK_BOOKKEEPING_POOL_SIZE_def)

section \<open>The claims\<close>

subsection \<open>C1: the ancestors are built before any handler runs\<close>

text \<open>
  C1. In \<open>handleTopLevel\<close> the \<open>ancestors\<close> array of the bookkeeping record is fully built,
  the traversal loop having ended, before \<open>runExtractedPluginEventsInBatch\<close> is called for
  any entry. When the traversal does not return, nothing is delivered. When it returns, it
  has called only \<open>getClosestInstanceFromNode\<close> and has left the world as it was; the
  delivery loop then runs on the state it returned, makes only delivery calls, for the
  entries of the array in order (up to the first one that throws), and leaves the record
  store as the traversal built it, although every handler may change the world.
\<close>

theorem ancestors_built_before_delivery:
  "case handleTopLevel_ancestors E bk (targetInst (records s bk)) s of
     None \<Rightarrow> handleTopLevel E bk s = None
   | Some s1 \<Rightarrow>
       handleTopLevel E bk s = Some (handleTopLevel_dispatch E bk 0 s1) \<and>
       world s1 = world s \<and>
       (\<exists>pre post.
          calls s1 = calls s @ pre \<and> (\<forall>c \<in> set pre. isResolution c) \<and>
          calls (final (handleTopLevel_dispatch E bk 0 s1)) = calls s1 @ post \<and>
          (\<forall>c \<in> set post. isDelivery c) \<and>
          map deliveryTarget post = take (length post) (ancestors (records s1 bk)) \<and>
          records (final (handleTopLevel_dispatch E bk 0 s1)) = records s1)"
proof (cases "handleTopLevel_ancestors E bk (targetInst (records s bk)) s")
  case None
  then show ?thesis by (simp add: handleTopLevel_def)
next
  case (Some s1)
  from handleTopLevel_ancestors_calls[OF Some] obtain pre where
    pre: "calls s1 = calls s @ pre" "\<forall>c \<in> set pre. isResolution c" "world s1 = world s"
    by blast
  from handleTopLevel_dispatch_calls[of E bk 0 s1] obtain post where
    post: "calls (final (handleTopLevel_dispatch E bk 0 s1)) = calls s1 @ post"
      "\<forall>c \<in> set post. isDelivery c"
      "map deliveryTarget post = take (length post) (ancestors (records s1 bk))"
      "records (final (handleTopLevel_dispatch E bk 0 s1)) = records s1"
    by auto
  have "\<exists>pre post.
          calls s1 = calls s @ pre \<and> (\<forall>c \<in> set pre. isResolution c) \<and>
          calls (final (handleTopLevel_dispatch E bk 0 s1)) = calls s1 @ post \<and>
          (\<forall>c \<in> set post. isDelivery c) \<and>
          map deliveryTarget post = take (length post) (ancestors (records s1 bk)) \<and>
          records (final (handleTopLevel_dispatch E bk 0 s1)) = records s1"
    using pre(1,2) post by blast
  with Some pre(3) show ?thesis by (simp add: handleTopLevel_def)
qed

text \<open>
  In the example world the first handler removes fiber 3 from its tree; the delivery still
  goes to both entry points found before it ran.
\<close>

lemma exC1: "map_option (\<lambda>s1. (ancestors (records s1 0), calls s1,
      calls (final (handleTopLevel_dispatch exEnv 0 0 s1)),
      world (final (handleTopLevel_dispatch exEnv 0 0 s1))))
    (handleTopLevel_ancestors exEnv 0 (targetInst (records (exAcquired (Some 3)) 0))
       (exAcquired (Some 3))) =
   Some ([Some 3, Some 1],
     [GetClosestInstanceFromNode 200, GetClosestInstanceFromNode 100],
     [GetClosestInstanceFromNode 200, GetClosestInstanceFromNode 100,
      RunExtractedPluginEventsInBatch (Some ''click'') (Some 3) (exEvent 300) 300,
      RunExtractedPluginEventsInBatch (Some ''click'') (Some 1) (exEvent 300) 300], 2)"
  by code_simp

theorem ancestors_built_before_delivery_witness:
  "\<exists>s1. handleTopLevel_ancestors exEnv 0 (targetInst (records (exAcquired (Some 3)) 0))
          (exAcquired (Some 3)) = Some s1 \<and>
        handleTopLevel exEnv 0 (exAcquired (Some 3)) =
          Some (handleTopLevel_dispatch exEnv 0 0 s1) \<and>
        calls s1 = [GetClosestInstanceFromNode 200, GetClosestInstanceFromNode 100] \<and>
        calls (final (handleTopLevel_dispatch exEnv 0 0 s1)) = calls s1 @
          [RunExtractedPluginEventsInBatch (Some ''click'') (Some 3) (exEvent 300) 300,
           RunExtractedPluginEventsInBatch (Some ''click'') (Some 1) (exEvent 300) 300] \<and>
        ancestors (records (final (handleTopLevel_dispatch exEnv 0 0 s1)) 0) = [Some 3, Some 1]"
proof -
  obtain s1 where s1: "handleTopLevel_ancestors exEnv 0
      (targetInst (records (exAcquired (Some 3)) 0)) (exAcquired (Some 3)) = Some s1"
    using exC1
    by (cases "handleTopLevel_ancestors exEnv 0
      (targetInst (records (exAcquired (Some 3)) 0)) (exAcquired (Some 3))") simp_all
  from ancestors_built_before_delivery[of exEnv 0 "exAcquired (Some 3)"] s1
  have t: "handleTopLevel exEnv 0 (exAcquired (Some 3)) =
          Some (handleTopLevel_dispatch exEnv 0 0 s1)"
    "records (final (handleTopLevel_dispatch exEnv 0 0 s1)) = records s1"
    by auto
  from exC1 s1 show ?thesis using t by auto
qed

subsection \<open>C2: the entry points of a mounted instance\<close>

text \<open>
  C2. For a target instance whose parent chain, of any length, ends in a node tagged
  \<open>HostRoot\<close> (\<open>chainTop\<close>, stated on the \<open>return\<close> links), in a world whose nesting of trees is
  finite, the traversal returns and appends a sequence of length at least 1 that starts
  with the target and is ordered innermost tree first. For an
  instance whose tree is mounted in a container node owned by an instance \<open>b\<close> of a second
  mounted tree, itself not nested further, the sequence is exactly the instance and then \<open>b\<close>.
\<close>

theorem mounted_target_entry_points:
  "(finiteNesting E (world s) rank \<and>
    chainTop (fiberAt E (world s)) a t \<and>
    tag (fiberAt E (world s) t) = HostRoot E \<longrightarrow>
      (\<exists>s1 rest. handleTopLevel_ancestors E bk (Some a) s = Some s1 \<and>
         ancestors (records s1 bk) = ancestors (records s bk) @ map Some (a # rest) \<and>
         innermostFirst E (world s) (a # rest))) \<and>
   (chainTop (fiberAt E (world s)) a t \<and>
    tag (fiberAt E (world s) t) = HostRoot E \<and>
    getClosestInstanceFromNode E (world s) (containerInfo (fiberAt E (world s) t)) = Some b \<and>
    chainTop (fiberAt E (world s)) b t' \<and>
    tag (fiberAt E (world s) t') = HostRoot E \<and>
    getClosestInstanceFromNode E (world s) (containerInfo (fiberAt E (world s) t')) = None \<longrightarrow>
      (\<exists>s1. handleTopLevel_ancestors E bk (Some a) s = Some s1 \<and>
         ancestors (records s1 bk) = ancestors (records s bk) @ [Some a, Some b]))"
proof (intro conjI impI)
  assume h: "finiteNesting E (world s) rank \<and>
    chainTop (fiberAt E (world s)) a t \<and>
    tag (fiberAt E (world s) t) = HostRoot E"
  then have root: "findRootContainerNode E (world s) a =
      Some (Some (containerInfo (fiberAt E (world s) t)))"
    using findRootContainerNode_chainTop[of E "world s" a t] by simp
  from h have fn: "finiteNesting E (world s) rank" by simp
  from entryPoints_finiteNesting[OF fn, of a] obtain ch where
    ch0: "entryPoints E (world s) a = Some ch" "innermostFirst E (world s) (map fst ch)"
      "\<forall>root. findRootContainerNode E (world s) a = Some (Some root) \<longrightarrow>
                (\<exists>rest. ch = (a, root) # rest)"
    by blast
  from ch0(3) root obtain rest where
    "ch = (a, containerInfo (fiberAt E (world s) t)) # rest"
    by blast
  note ch = ch0(1,2) this
  have "handleTopLevel_ancestors E bk (Some a) s = Some (appendAncestors bk ch s)"
    using ch(1) by (simp add: handleTopLevel_ancestors_Some)
  moreover have "ancestors (records (appendAncestors bk ch s) bk) =
      ancestors (records s bk) @ map Some (a # map fst rest)"
    using ch(3) by (simp add: appendAncestors_def)
  moreover have "innermostFirst E (world s) (a # map fst rest)"
    using ch(2,3) by simp
  ultimately show "\<exists>s1 rest. handleTopLevel_ancestors E bk (Some a) s = Some s1 \<and>
         ancestors (records s1 bk) = ancestors (records s bk) @ map Some (a # rest) \<and>
         innermostFirst E (world s) (a # rest)"
    by blast
next
  let ?w = "world s"
  assume h: "chainTop (fiberAt E ?w) a t \<and>
    tag (fiberAt E ?w t) = HostRoot E \<and>
    getClosestInstanceFromNode E ?w (containerInfo (fiberAt E ?w t)) = Some b \<and>
    chainTop (fiberAt E ?w) b t' \<and>
    tag (fiberAt E ?w t') = HostRoot E \<and>
    getClosestInstanceFromNode E ?w (containerInfo (fiberAt E ?w t')) = None"
  then have ra: "findRootContainerNode E ?w a = Some (Some (containerInfo (fiberAt E ?w t)))"
    and rb: "findRootContainerNode E ?w b = Some (Some (containerInfo (fiberAt E ?w t')))"
    using findRootContainerNode_chainTop[of E ?w a t]
      findRootContainerNode_chainTop[of E ?w b t']
    by simp_all
  have eb: "entryPoints E ?w b = Some [(b, containerInfo (fiberAt E ?w t'))]"
    using rb h by (subst entryPoints.simps) simp
  have ea: "entryPoints E ?w a =
      Some [(a, containerInfo (fiberAt E ?w t)), (b, containerInfo (fiberAt E ?w t'))]"
    using ra h eb by (subst entryPoints.simps) simp
  show "\<exists>s1. handleTopLevel_ancestors E bk (Some a) s = Some s1 \<and>
         ancestors (records s1 bk) = ancestors (records s bk) @ [Some a, Some b]"
    using ea by (simp add: handleTopLevel_ancestors_Some appendAncestors_def)
qed

text \<open>
  In the example world the target 3 lies two links below its root 2, and the owner 1 of the
  root's container two links below the outer root 0.
\<close>

theorem mounted_target_entry_points_witness:
  "finiteNesting exEnv (world (exAcquired (Some 3))) exRank \<and>
   chainTop (fiberAt exEnv (world (exAcquired (Some 3)))) 3 2 \<and>
   return (fiberAt exEnv (world (exAcquired (Some 3))) 3) = Some 8 \<and>
   return (fiberAt exEnv (world (exAcquired (Some 3))) 8) = Some 2 \<and>
   tag (fiberAt exEnv (world (exAcquired (Some 3))) 2) = HostRoot exEnv \<and>
   getClosestInstanceFromNode exEnv (world (exAcquired (Some 3)))
     (containerInfo (fiberAt exEnv (world (exAcquired (Some 3))) 2)) = Some 1 \<and>
   chainTop (fiberAt exEnv (world (exAcquired (Some 3)))) 1 0 \<and>
   tag (fiberAt exEnv (world (exAcquired (Some 3))) 0) = HostRoot exEnv \<and>
   getClosestInstanceFromNode exEnv (world (exAcquired (Some 3)))
     (containerInfo (fiberAt exEnv (world (exAcquired (Some 3))) 0)) = None \<and>
   (\<exists>s1 rest. handleTopLevel_ancestors exEnv 0 (Some 3) (exAcquired (Some 3)) = Some s1 \<and>
      ancestors (records s1 0) = map Some (3 # rest) \<and>
      innermostFirst exEnv 0 (3 # rest)) \<and>
   (\<exists>s1. handleTopLevel_ancestors exEnv 0 (Some 3) (exAcquired (Some 3)) = Some s1 \<and>
      ancestors (records s1 0) = [Some 3, Some 1])"
proof -
  have w: "world (exAcquired (Some 3)) = 0" by (rule exAcquired_record)
  have h1: "finiteNesting exEnv (world (exAcquired (Some 3))) exRank"
    unfolding w by (rule exFiniteNesting)
  have h2: "chainTop (fiberAt exEnv (world (exAcquired (Some 3)))) 3 2"
    unfolding w by (rule exChain3)
  have l: "return (fiberAt exEnv (world (exAcquired (Some 3))) 3) = Some 8"
    "return (fiberAt exEnv (world (exAcquired (Some 3))) 8) = Some 2"
    by (simp_all add: exEnv_fields exFiberAt_def exAcquired_record)
  have h3: "tag (fiberAt exEnv (world (exAcquired (Some 3))) 2) = HostRoot exEnv"
    by (simp add: exEnv_fields exFiberAt_def)
  have h4: "getClosestInstanceFromNode exEnv (world (exAcquired (Some 3)))
     (containerInfo (fiberAt exEnv (world (exAcquired (Some 3))) 2)) = Some 1"
    by (simp add: exEnv_fields exFiberAt_def exClosest_def)
  have h5: "chainTop (fiberAt exEnv (world (exAcquired (Some 3)))) 1 0"
    unfolding w by (rule exChain1)
  have h6: "tag (fiberAt exEnv (world (exAcquired (Some 3))) 0) = HostRoot exEnv"
    by (simp add: exEnv_fields exFiberAt_def)
  have h7: "getClosestInstanceFromNode exEnv (world (exAcquired (Some 3)))
     (containerInfo (fiberAt exEnv (world (exAcquired (Some 3))) 0)) = None"
    by (simp add: exEnv_fields exFiberAt_def exClosest_def)
  note T = mounted_target_entry_points[of exEnv "exAcquired (Some 3)" exRank 3 2 0 1 0]
  have a: "\<exists>s1 rest. handleTopLevel_ancestors exEnv 0 (Some 3) (exAcquired (Some 3)) = Some s1 \<and>
      ancestors (records s1 0) = map Some (3 # rest) \<and>
      innermostFirst exEnv 0 (3 # rest)"
    using T h1 h2 h3 by (simp add: exAcquired_record)
  have b: "\<exists>s1. handleTopLevel_ancestors exEnv 0 (Some 3) (exAcquired (Some 3)) = Some s1 \<and>
      ancestors (records s1 0) = [Some 3, Some 1]"
    using T h2 h3 h4 h5 h6 h7 by (simp add: exAcquired_record)
  show ?thesis using h1 h2 l h3 h4 h5 h6 h7 a b by blast
qed

subsection \<open>C3: release when a handler throws\<close>

text \<open>
  C3. When \<open>handleTopLevel\<close> throws \<open>e\<close> inside \<open>batchedEventUpdates\<close>, the dispatch through the
  plugin event system throws the same \<open>e\<close>, which is an error thrown by
  \<open>runExtractedPluginEventsInBatch\<close>, after the bookkeeping record has been released: all its
  fields are cleared and it is back in the pool if the pool was below its capacity. The
  pool invariant holds afterwards, so the next acquire returns a record with the new values
  and no ancestors.
\<close>

theorem release_on_delivery_failure:
  assumes "poolInv s"
    and "getTopLevelCallbackBookKeeping tlt ev inst s = (bk, s1)"
    and "handleTopLevel E bk
           (s1\<lparr>world := batchedEventUpdatesBefore E (world s1),
               calls := calls s1 @ [BatchedEventUpdates (records s1 bk)]\<rparr>) = Some (Inl (e, s2))"
  shows "\<exists>s3. dispatchEventForPluginEventSystem E tlt flags ev inst s = Some (Inl (e, s3)) \<and>
           topLevelType (records s3 bk) = None \<and> nativeEvent (records s3 bk) = None \<and>
           targetInst (records s3 bk) = None \<and> ancestors (records s3 bk) = [] \<and>
           callbackBookkeepingPool s3 =
             (if length (callbackBookkeepingPool s1) < 10
              then callbackBookkeepingPool s1 @ [bk] else callbackBookkeepingPool s1) \<and>
           poolInv s3 \<and>
           (\<forall>tlt' ev' inst' bk' s4.
              getTopLevelCallbackBookKeeping tlt' ev' inst' s3 = (bk', s4) \<longrightarrow>
                records s4 bk' =
                  \<lparr>topLevelType = Some tlt', nativeEvent = Some ev', targetInst = inst',
                   ancestors = []\<rparr>) \<and>
           (\<exists>x w w1. runExtractedPluginEventsInBatch E (Some tlt) x ev
                        (getEventTarget E w ev) w = Inl (e, w1))"
proof -
  let ?s0 = "s1\<lparr>world := batchedEventUpdatesBefore E (world s1),
               calls := calls s1 @ [BatchedEventUpdates (records s1 bk)]\<rparr>"
  let ?s2 = "s2\<lparr>world := batchedEventUpdatesAfter E (Some e) (world s2),
               calls := calls s2 @ [BatchedEventUpdatesReturn]\<rparr>"
  let ?s3 = "releaseTopLevelCallbackBookKeeping bk ?s2"
  note a = getTopLevelCallbackBookKeeping_poolInv[OF assms(1,2)]
  have ne: "nativeEvent (records ?s0 bk) = Some ev" using a(1) by simp
  have b: "batchedEventUpdates E (handleTopLevel E) bk s1 = Some (Inl (e, ?s2))"
    using assms(3) by (simp add: batchedEventUpdates_def)
  have d: "dispatchEventForPluginEventSystem E tlt flags ev inst s = Some (Inl (e, ?s3))"
    using assms(2) b by (simp add: dispatchEventForPluginEventSystem_def)
  have sm: "sameModule bk s1 (final (Inl (e, ?s2)))"
    using batchedEventUpdates_sameModule[OF _ b] a(1) by simp
  then have sm2: "sameModule bk s1 ?s2" by (simp add: final_def)
  note inv2 = sameModule_poolInv[OF a(2) a(3) sm2]
  note rel = releaseTopLevelCallbackBookKeeping_poolInv[OF inv2]
  have pool: "callbackBookkeepingPool ?s3 =
             (if length (callbackBookkeepingPool s1) < 10
              then callbackBookkeepingPool s1 @ [bk] else callbackBookkeepingPool s1)"
    using sm2
    by (simp add: releaseTopLevelCallbackBookKeeping_def sameModule_def
        CALLBACK_BOOKKEEPING_POOL_SIZE_def Let_def)
  have next_acq: "\<forall>tlt' ev' inst' bk' s4.
              getTopLevelCallbackBookKeeping tlt' ev' inst' ?s3 = (bk', s4) \<longrightarrow>
                records s4 bk' =
                  \<lparr>topLevelType = Some tlt', nativeEvent = Some ev', targetInst = inst',
                   ancestors = []\<rparr>"
    using getTopLevelCallbackBookKeeping_poolInv(1)[OF rel(1)] by blast
  from handleTopLevel_raise[OF ne assms(3)] a(1)
  obtain xs w where "snd (deliveries E (Some tlt) ev xs w) = Inl (e, world s2)"
    by auto
  from deliveries_raise[OF this]
  have thrown: "\<exists>x w w1. runExtractedPluginEventsInBatch E (Some tlt) x ev
                        (getEventTarget E w ev) w = Inl (e, w1)"
    by blast
  show ?thesis
    using d rel(1) rel(2) pool next_acq thrown
    by (intro exI[of _ ?s3]) (simp add: cleared_def)
qed

lemma exC3:
  "map_option raised
     (handleTopLevel exEnv (fst (getTopLevelCallbackBookKeeping ''scroll'' (exEvent 300) (Some 3) exPooled))
        ((snd (getTopLevelCallbackBookKeeping ''scroll'' (exEvent 300) (Some 3) exPooled))
           \<lparr>world := batchedEventUpdatesBefore exEnv
               (world (snd (getTopLevelCallbackBookKeeping ''scroll'' (exEvent 300) (Some 3) exPooled))),
             calls := calls (snd (getTopLevelCallbackBookKeeping ''scroll'' (exEvent 300) (Some 3) exPooled)) @
               [BatchedEventUpdates
                  (records (snd (getTopLevelCallbackBookKeeping ''scroll'' (exEvent 300) (Some 3) exPooled))
                     (fst (getTopLevelCallbackBookKeeping ''scroll'' (exEvent 300) (Some 3) exPooled)))]\<rparr>))
   = Some (Some (Thrown ''handler''))"
  by code_simp

theorem release_on_delivery_failure_witness:
  "poolInv exPooled \<and>
   (\<exists>s3. dispatchEventForPluginEventSystem exEnv ''scroll'' 1 (exEvent 300) (Some 3) exPooled =
           Some (Inl (Thrown ''handler'', s3)) \<and>
         ancestors (records s3 0) = [] \<and> callbackBookkeepingPool s3 = [0] \<and> poolInv s3)"
proof -
  let ?a = "getTopLevelCallbackBookKeeping ''scroll'' (exEvent 300) (Some 3) exPooled"
  have bk: "fst ?a = 0" "callbackBookkeepingPool (snd ?a) = []"
    by (simp_all add: getTopLevelCallbackBookKeeping_def exPooled_def exState_def)
  have acq: "?a = (fst ?a, snd ?a)" by simp
  let ?s0 = "(snd ?a)\<lparr>world := batchedEventUpdatesBefore exEnv (world (snd ?a)),
               calls := calls (snd ?a) @ [BatchedEventUpdates (records (snd ?a) (fst ?a))]\<rparr>"
  from exC3 obtain r where r: "handleTopLevel exEnv (fst ?a) ?s0 = Some r"
    and "raised r = Some (Thrown ''handler'')"
    by (cases "handleTopLevel exEnv (fst ?a) ?s0") simp_all
  then obtain s2 where s2: "handleTopLevel exEnv (fst ?a) ?s0 = Some (Inl (Thrown ''handler'', s2))"
    by (cases r) (auto simp: raised_def)
  from release_on_delivery_failure[OF poolInv_exPooled acq s2, of 1]
  show ?thesis using poolInv_exPooled bk by auto
qed

subsection \<open>C4: dispatch when the system is disabled\<close>

text \<open>
  C4, as amended. When \<open>_enabled\<close> is false, \<open>dispatchEvent\<close> returns at once and leaves the
  whole state as it is. Through \<open>dispatchInteractiveEvent\<close> there is still no call of
  \<open>getClosestInstanceFromNode\<close> and none of \<open>runExtractedPluginEventsInBatch\<close>, and the
  enabled flag, the pool and the records are untouched; but the wrapper runs before the
  check of the flag, so pending discrete updates are flushed when \<open>enableEventAPI\<close> is off or
  \<open>shouldflushDiscreteUpdates\<close> says so, and \<open>discreteUpdates\<close> is called.
\<close>

theorem disabled_dispatch_delivers_nothing:
  assumes "\<not> enabled s"
  shows "dispatchEvent E tlt flags ev s = Some (Inr s) \<and>
         (\<exists>s1. dispatchInteractiveEvent E tlt flags ev s = Some (Inr s1) \<and>
            enabled s1 = enabled s \<and>
            callbackBookkeepingPool s1 = callbackBookkeepingPool s \<and>
            records s1 = records s \<and> allocated s1 = allocated s \<and>
            calls s1 = calls s @
              (if \<not> enableEventAPI E \<or>
                  fst (shouldflushDiscreteUpdates E (timeStamp ev) (world s))
               then [FlushDiscreteUpdates] else []) @
              [DiscreteUpdates tlt flags ev, DiscreteUpdatesReturn])"
  using assms
  by (auto simp: dispatchEvent_def dispatchInteractiveEvent_def discreteUpdates_def
      callFlushDiscreteUpdates_def split: prod.splits)

theorem disabled_dispatch_delivers_nothing_witness:
  "\<not> enabled exDisabled \<and>
   dispatchEvent exEnv ''click'' 1 (exEvent 300) exDisabled = Some (Inr exDisabled) \<and>
   (\<exists>s1. dispatchInteractiveEvent exEnv ''click'' 1 (exEvent 300) exDisabled = Some (Inr s1) \<and>
      calls s1 = [FlushDiscreteUpdates, DiscreteUpdates ''click'' 1 (exEvent 300),
                  DiscreteUpdatesReturn])"
proof -
  have h: "\<not> enabled exDisabled" by (simp add: exDisabled_def exState_def)
  have c: "calls exDisabled = []" by (simp add: exDisabled_def exState_def)
  show ?thesis
    using h disabled_dispatch_delivers_nothing[OF h, of exEnv "''click''" 1 "exEvent 300"]
    by (auto simp: exEnv_fields c)
qed

text \<open>
  The claim as stated fails for the interactive listener: with the system disabled, a click
  flushes the pending discrete updates (the world goes from 0 to 10) and calls
  \<open>discreteUpdates\<close>.
\<close>

theorem disabled_interactive_dispatch_counterexample:
  "\<not> isEnabled exDisabled \<and>
   dispatchInteractiveEvent exEnv ''click'' 1 (exEvent 300) exDisabled =
     Some (Inr (exDisabled\<lparr>world := 10,
       calls := [FlushDiscreteUpdates, DiscreteUpdates ''click'' 1 (exEvent 300),
                 DiscreteUpdatesReturn]\<rparr>)) \<and>
   dispatchInteractiveEvent exEnv ''click'' 1 (exEvent 300) exDisabled \<noteq>
     Some (Inr exDisabled)"
  by (simp add: isEnabled_def exDisabled_def exState_def dispatchInteractiveEvent_def
      discreteUpdates_def dispatchEvent_def callFlushDiscreteUpdates_def exEnv_def)

subsection \<open>C5: the listener of an interactive event\<close>

text \<open>
  C5, as amended. The listener that \<open>trapBubbledEvent\<close> and \<open>trapCapturedEvent\<close> install is
  bound to \<open>dispatchInteractiveEvent\<close> for an interactive event type and to \<open>dispatchEvent\<close>
  otherwise. The interactive listener calls \<open>flushDiscreteUpdates\<close> exactly when
  \<open>enableEventAPI\<close> is off or \<open>shouldflushDiscreteUpdates\<close> returns true, and then runs
  \<open>dispatchEvent\<close> as the callback of \<open>discreteUpdates\<close>. The default batching primitive is
  not replaced: when the system is enabled, \<open>batchedEventUpdates\<close> is still called, inside
  the call of \<open>discreteUpdates\<close>, around the traversal and the deliveries.
\<close>

theorem interactive_listener_discrete_batch:
  "calls (trapBubbledEvent E tlt element s0) = calls s0 @
     [AddEventBubbleListener element (getRawEventName E tlt)
        (Listener (if isInteractiveTopLevelEventType E tlt then DispatchInteractiveEvent
                   else DispatchEvent) tlt (PLUGIN_EVENT_SYSTEM E))] \<and>
   calls (trapCapturedEvent E tlt element s0) = calls s0 @
     [AddEventCaptureListener element (getRawEventName E tlt)
        (Listener (if isInteractiveTopLevelEventType E tlt then DispatchInteractiveEvent
                   else DispatchEvent) tlt (PLUGIN_EVENT_SYSTEM E))] \<and>
   callListener E
     (Listener (if isInteractiveTopLevelEventType E tlt then DispatchInteractiveEvent
                else DispatchEvent) tlt (PLUGIN_EVENT_SYSTEM E)) ev s =
     (if isInteractiveTopLevelEventType E tlt
      then discreteUpdates E (dispatchEvent E) tlt (PLUGIN_EVENT_SYSTEM E) ev
             (beforeDiscreteUpdates E ev s)
      else dispatchEvent E tlt (PLUGIN_EVENT_SYSTEM E) ev s) \<and>
   calls (beforeDiscreteUpdates E ev s) = calls s @
     (if \<not> enableEventAPI E \<or> fst (shouldflushDiscreteUpdates E (timeStamp ev) (world s))
      then [FlushDiscreteUpdates] else []) \<and>
   (isInteractiveTopLevelEventType E tlt \<and> enabled s \<and> poolInv s \<longrightarrow>
      (\<forall>r. callListener E (Listener DispatchInteractiveEvent tlt (PLUGIN_EVENT_SYSTEM E)) ev s
              = Some r \<longrightarrow>
         (\<exists>inst mid.
            calls (final r) = calls (beforeDiscreteUpdates E ev s) @
              [DiscreteUpdates tlt (PLUGIN_EVENT_SYSTEM E) ev,
               GetClosestInstanceFromNode
                 (getEventTarget E
                    (discreteUpdatesBefore E (world (beforeDiscreteUpdates E ev s))) ev),
               BatchedEventUpdates
                 \<lparr>topLevelType = Some tlt, nativeEvent = Some ev, targetInst = inst,
                  ancestors = []\<rparr>] @
              mid @ [BatchedEventUpdatesReturn, DiscreteUpdatesReturn] \<and>
            (\<forall>c \<in> set mid. isResolution c \<or> isDelivery c))))"
proof (intro conjI impI allI)
  show "calls (trapBubbledEvent E tlt element s0) = calls s0 @
     [AddEventBubbleListener element (getRawEventName E tlt)
        (Listener (if isInteractiveTopLevelEventType E tlt then DispatchInteractiveEvent
                   else DispatchEvent) tlt (PLUGIN_EVENT_SYSTEM E))]"
    by (simp add: trapBubbledEvent_def trapEventForPluginEventSystem_def Let_def)
  show "calls (trapCapturedEvent E tlt element s0) = calls s0 @
     [AddEventCaptureListener element (getRawEventName E tlt)
        (Listener (if isInteractiveTopLevelEventType E tlt then DispatchInteractiveEvent
                   else DispatchEvent) tlt (PLUGIN_EVENT_SYSTEM E))]"
    by (simp add: trapCapturedEvent_def trapEventForPluginEventSystem_def Let_def)
  show "callListener E
     (Listener (if isInteractiveTopLevelEventType E tlt then DispatchInteractiveEvent
                else DispatchEvent) tlt (PLUGIN_EVENT_SYSTEM E)) ev s =
     (if isInteractiveTopLevelEventType E tlt
      then discreteUpdates E (dispatchEvent E) tlt (PLUGIN_EVENT_SYSTEM E) ev
             (beforeDiscreteUpdates E ev s)
      else dispatchEvent E tlt (PLUGIN_EVENT_SYSTEM E) ev s)"
    by (simp add: dispatchInteractiveEvent_before)
  show "calls (beforeDiscreteUpdates E ev s) = calls s @
     (if \<not> enableEventAPI E \<or> fst (shouldflushDiscreteUpdates E (timeStamp ev) (world s))
      then [FlushDiscreteUpdates] else [])"
    by (simp add: beforeDiscreteUpdates_def callFlushDiscreteUpdates_def split: prod.splits)
next
  fix r
  let ?P = "PLUGIN_EVENT_SYSTEM E"
  let ?b = "beforeDiscreteUpdates E ev s"
  let ?d = "?b\<lparr>world := discreteUpdatesBefore E (world ?b),
               calls := calls ?b @ [DiscreteUpdates tlt ?P ev]\<rparr>"
  let ?t = "getEventTarget E (world ?d) ev"
  let ?s1 = "?d\<lparr>calls := calls ?d @ [GetClosestInstanceFromNode ?t]\<rparr>"
  assume h: "isInteractiveTopLevelEventType E tlt \<and> enabled s \<and> poolInv s"
    and run: "callListener E (Listener DispatchInteractiveEvent tlt ?P) ev s = Some r"
  have en: "enabled ?d"
    using h by (simp add: beforeDiscreteUpdates_def callFlushDiscreteUpdates_def
        split: prod.splits)
  have inv: "poolInv ?s1"
    using h beforeDiscreteUpdates_poolInv[of s E ev] by simp
  from run obtain r1 where r1: "dispatchEvent E tlt ?P ev ?d = Some r1"
    and rc: "calls (final r) = calls (final r1) @ [DiscreteUpdatesReturn]"
    by (cases "dispatchEvent E tlt ?P ev ?d")
       (auto simp: dispatchInteractiveEvent_before discreteUpdates_def final_def
          split: sum.splits)
  define inst where "inst = (case getClosestInstanceFromNode E (world ?d) ?t of
                       None \<Rightarrow> None
                     | Some found \<Rightarrow>
                         if \<not> isFiberMounted E (world ?d) found then None else Some found)"
  have r1': "dispatchEventForPluginEventSystem E tlt ?P ev inst ?s1 = Some r1"
    using r1 en unfolding dispatchEvent_def Let_def inst_def by (simp split: if_splits)
  obtain bk s2 where acq: "getTopLevelCallbackBookKeeping tlt ev inst ?s1 = (bk, s2)"
    by (cases "getTopLevelCallbackBookKeeping tlt ev inst ?s1")
  from dispatchEventForPluginEventSystem_calls[OF inv acq r1'] obtain r0 where
    r0: "handleTopLevel E bk
             (s2\<lparr>world := batchedEventUpdatesBefore E (world ?s1),
                 calls := calls ?s1 @
                   [BatchedEventUpdates \<lparr>topLevelType = Some tlt, nativeEvent = Some ev,
                      targetInst = inst, ancestors = []\<rparr>]\<rparr>) = Some r0"
    and c0: "calls (final r1) = calls (final r0) @ [BatchedEventUpdatesReturn]"
    by blast
  from handleTopLevel_calls[OF r0] obtain mid where
    mid: "calls (final r0) = calls ?s1 @
                   [BatchedEventUpdates \<lparr>topLevelType = Some tlt, nativeEvent = Some ev,
                      targetInst = inst, ancestors = []\<rparr>] @ mid"
      "\<forall>c \<in> set mid. isResolution c \<or> isDelivery c"
    by auto
  show "\<exists>inst mid.
            calls (final r) = calls (beforeDiscreteUpdates E ev s) @
              [DiscreteUpdates tlt (PLUGIN_EVENT_SYSTEM E) ev,
               GetClosestInstanceFromNode
                 (getEventTarget E
                    (discreteUpdatesBefore E (world (beforeDiscreteUpdates E ev s))) ev),
               BatchedEventUpdates
                 \<lparr>topLevelType = Some tlt, nativeEvent = Some ev, targetInst = inst,
                  ancestors = []\<rparr>] @
              mid @ [BatchedEventUpdatesReturn, DiscreteUpdatesReturn] \<and>
            (\<forall>c \<in> set mid. isResolution c \<or> isDelivery c)"
    using rc c0 mid by (intro exI[of _ inst] exI[of _ mid]) simp
qed

lemma exC5:
  "map_option (\<lambda>r. calls (final r))
     (callListener exEnvAPI (Listener DispatchInteractiveEvent ''click'' 1) exEvent0 exState) =
   Some [DiscreteUpdates ''click'' 1 exEvent0,
         GetClosestInstanceFromNode 300,
         BatchedEventUpdates
           \<lparr>topLevelType = Some ''click'', nativeEvent = Some exEvent0,
            targetInst = Some 3, ancestors = []\<rparr>,
         GetClosestInstanceFromNode 200, GetClosestInstanceFromNode 100,
         RunExtractedPluginEventsInBatch (Some ''click'') (Some 3) exEvent0 300,
         RunExtractedPluginEventsInBatch (Some ''click'') (Some 1) exEvent0 300,
         BatchedEventUpdatesReturn, DiscreteUpdatesReturn]"
  by code_simp

theorem interactive_listener_discrete_batch_witness:
  "isInteractiveTopLevelEventType exEnvAPI ''click'' \<and> enabled exState \<and> poolInv exState \<and>
   calls (trapBubbledEvent exEnvAPI ''click'' 100 exState) =
     [AddEventBubbleListener 100 ''click'' (Listener DispatchInteractiveEvent ''click'' 1)] \<and>
   (\<exists>r. callListener exEnvAPI (Listener DispatchInteractiveEvent ''click'' 1) exEvent0 exState
          = Some r \<and>
     (\<exists>inst mid. calls (final r) =
        [DiscreteUpdates ''click'' 1 exEvent0, GetClosestInstanceFromNode 300,
         BatchedEventUpdates
           \<lparr>topLevelType = Some ''click'', nativeEvent = Some exEvent0,
            targetInst = inst, ancestors = []\<rparr>] @
        mid @ [BatchedEventUpdatesReturn, DiscreteUpdatesReturn]))"
proof -
  have f: "isInteractiveTopLevelEventType exEnvAPI ''click''"
    "PLUGIN_EVENT_SYSTEM exEnvAPI = 1" "getRawEventName exEnvAPI ''click'' = ''click''"
    "enableEventAPI exEnvAPI"
    "shouldflushDiscreteUpdates exEnvAPI (timeStamp exEvent0) w = (False, w)"
    "discreteUpdatesBefore exEnvAPI w = w" "getEventTarget exEnvAPI w exEvent0 = 300" for w
    by (simp_all add: exEnvAPI_def exEnv_def exEvent0_def)
  have e: "enabled exState" "calls exState = []" by (simp_all add: exState_def)
  obtain r where r: "callListener exEnvAPI (Listener DispatchInteractiveEvent ''click'' 1)
      exEvent0 exState = Some r"
    using exC5
    by (cases "callListener exEnvAPI (Listener DispatchInteractiveEvent ''click'' 1)
      exEvent0 exState") simp_all
  note T = interactive_listener_discrete_batch[of exEnvAPI "''click''" 100 exState exEvent0
      exState]
  from T have t1: "calls (trapBubbledEvent exEnvAPI ''click'' 100 exState) =
     [AddEventBubbleListener 100 ''click'' (Listener DispatchInteractiveEvent ''click'' 1)]"
    by (simp add: f e)
  from T have b: "calls (beforeDiscreteUpdates exEnvAPI exEvent0 exState) = []"
    by (simp add: f e)
  have w: "world (beforeDiscreteUpdates exEnvAPI exEvent0 exState) = 0"
    by (simp add: beforeDiscreteUpdates_def f exState_def)
  from T f(1) e(1) poolInv_exState r
  have "\<exists>inst mid. calls (final r) = calls (beforeDiscreteUpdates exEnvAPI exEvent0 exState) @
        [DiscreteUpdates ''click'' (PLUGIN_EVENT_SYSTEM exEnvAPI) exEvent0,
         GetClosestInstanceFromNode
           (getEventTarget exEnvAPI (discreteUpdatesBefore exEnvAPI
              (world (beforeDiscreteUpdates exEnvAPI exEvent0 exState))) exEvent0),
         BatchedEventUpdates
           \<lparr>topLevelType = Some ''click'', nativeEvent = Some exEvent0,
            targetInst = inst, ancestors = []\<rparr>] @
        mid @ [BatchedEventUpdatesReturn, DiscreteUpdatesReturn] \<and>
        (\<forall>c \<in> set mid. isResolution c \<or> isDelivery c)"
    unfolding f(2) by blast
  then have t2: "\<exists>inst mid. calls (final r) =
        [DiscreteUpdates ''click'' 1 exEvent0, GetClosestInstanceFromNode 300,
         BatchedEventUpdates
           \<lparr>topLevelType = Some ''click'', nativeEvent = Some exEvent0,
            targetInst = inst, ancestors = []\<rparr>] @
        mid @ [BatchedEventUpdatesReturn, DiscreteUpdatesReturn]"
    unfolding b f w by auto
  show ?thesis using f(1) e(1) poolInv_exState t1 r t2 by blast
qed

text \<open>
  The claim as stated fails: a click, which is interactive, is delivered inside
  \<open>batchedEventUpdates\<close>, itself called inside \<open>discreteUpdates\<close>.
\<close>

theorem interactive_listener_default_batch_counterexample:
  "isInteractiveTopLevelEventType exEnvAPI ''click'' \<and>
   map_option (calls \<circ> final)
     (callListener exEnvAPI (Listener DispatchInteractiveEvent ''click'' 1) exEvent0 exState) =
   Some [DiscreteUpdates ''click'' 1 exEvent0,
         GetClosestInstanceFromNode 300,
         BatchedEventUpdates
           \<lparr>topLevelType = Some ''click'', nativeEvent = Some exEvent0,
            targetInst = Some 3, ancestors = []\<rparr>,
         GetClosestInstanceFromNode 200, GetClosestInstanceFromNode 100,
         RunExtractedPluginEventsInBatch (Some ''click'') (Some 3) exEvent0 300,
         RunExtractedPluginEventsInBatch (Some ''click'') (Some 1) exEvent0 300,
         BatchedEventUpdatesReturn, DiscreteUpdatesReturn]"
  by code_simp

subsection \<open>C6: an instance that is not mounted yet\<close>

text \<open>
  C6. When the system is enabled and \<open>getClosestInstanceFromNode\<close> returns an instance that
  \<open>isFiberMounted\<close> reports as not mounted, \<open>dispatchEvent\<close> does what it does when the
  resolver returns null for the target node. Routed to the plugin event system, the event
  is delivered exactly once, with the target null; routed to the responder event system,
  it is handed on once with the target null.
\<close>

theorem unmounted_instance_treated_as_absent:
  assumes "enabled s"
    and "getClosestInstanceFromNode E (world s) (getEventTarget E (world s) ev) = Some found"
    and "\<not> isFiberMounted E (world s) found"
  shows "dispatchEvent E tlt flags ev s =
           dispatchEvent
             (E\<lparr>getClosestInstanceFromNode :=
                  (getClosestInstanceFromNode E)
                    (world s := (getClosestInstanceFromNode E (world s))
                       (getEventTarget E (world s) ev := None))\<rparr>)
             tlt flags ev s \<and>
         ((enableEventAPI E \<longrightarrow> flags = PLUGIN_EVENT_SYSTEM E) \<and> poolInv s \<longrightarrow>
            (\<exists>r. dispatchEvent E tlt flags ev s = Some r \<and>
               calls (final r) = calls s @
                 [GetClosestInstanceFromNode (getEventTarget E (world s) ev),
                  BatchedEventUpdates
                    \<lparr>topLevelType = Some tlt, nativeEvent = Some ev, targetInst = None,
                     ancestors = []\<rparr>,
                  RunExtractedPluginEventsInBatch (Some tlt) None ev
                    (getEventTarget E (batchedEventUpdatesBefore E (world s)) ev),
                  BatchedEventUpdatesReturn])) \<and>
         (enableEventAPI E \<and> flags \<noteq> PLUGIN_EVENT_SYSTEM E \<longrightarrow>
            (\<exists>r. dispatchEvent E tlt flags ev s = Some r \<and>
               calls (final r) = calls s @
                 [GetClosestInstanceFromNode (getEventTarget E (world s) ev),
                  DispatchEventForResponderEventSystem tlt None ev
                    (getEventTarget E (world s) ev) flags]))"
proof (intro conjI impI)
  let ?t = "getEventTarget E (world s) ev"
  let ?E = "E\<lparr>getClosestInstanceFromNode :=
                  (getClosestInstanceFromNode E)
                    (world s := (getClosestInstanceFromNode E (world s)) (?t := None))\<rparr>"
  let ?s1 = "s\<lparr>calls := calls s @ [GetClosestInstanceFromNode ?t]\<rparr>"
  have l: "dispatchEvent E tlt flags ev s =
      (if enableEventAPI E then
         (if flags = PLUGIN_EVENT_SYSTEM E then
            dispatchEventForPluginEventSystem E tlt flags ev None ?s1
          else Some (callResponderEventSystem E tlt None ev ?t flags ?s1))
       else dispatchEventForPluginEventSystem E tlt flags ev None ?s1)"
    using assms by (simp add: dispatchEvent_def Let_def)
  have r: "dispatchEvent ?E tlt flags ev s =
      (if enableEventAPI E then
         (if flags = PLUGIN_EVENT_SYSTEM E then
            dispatchEventForPluginEventSystem ?E tlt flags ev None ?s1
          else Some (callResponderEventSystem ?E tlt None ev ?t flags ?s1))
       else dispatchEventForPluginEventSystem ?E tlt flags ev None ?s1)"
    using assms by (simp add: dispatchEvent_def Let_def)
  have h: "handleTopLevel ?E bk s' = handleTopLevel E bk s'"
    if "targetInst (records s' bk) = None" "nativeEvent (records s' bk) = Some ev" for bk s'
    using that
    by (simp add: handleTopLevel_entries entries_def
        deliveries_env[of ?E E, OF _ _] cong: if_cong)
  have p: "dispatchEventForPluginEventSystem ?E tlt flags ev None s' =
           dispatchEventForPluginEventSystem E tlt flags ev None s'" for s'
  proof -
    obtain bk s2 where acq: "getTopLevelCallbackBookKeeping tlt ev None s' = (bk, s2)"
      by (cases "getTopLevelCallbackBookKeeping tlt ev None s'")
    then have rec: "targetInst (records s2 bk) = None" "nativeEvent (records s2 bk) = Some ev"
      by (auto simp: getTopLevelCallbackBookKeeping_def Let_def split: if_splits)
    let ?s0 = "s2\<lparr>world := batchedEventUpdatesBefore E (world s2),
                 calls := calls s2 @ [BatchedEventUpdates (records s2 bk)]\<rparr>"
    have "handleTopLevel ?E bk ?s0 = handleTopLevel E bk ?s0"
      by (rule h) (use rec in simp_all)
    then have "batchedEventUpdates ?E (handleTopLevel ?E) bk s2 =
               batchedEventUpdates E (handleTopLevel E) bk s2"
      by (simp add: batchedEventUpdates_def split: option.splits sum.splits)
    then show ?thesis using acq by (simp add: dispatchEventForPluginEventSystem_def)
  qed
  have q: "callResponderEventSystem ?E tlt None ev ?t flags ?s1 =
           callResponderEventSystem E tlt None ev ?t flags ?s1"
    by (simp add: callResponderEventSystem_def)
  show "dispatchEvent E tlt flags ev s = dispatchEvent ?E tlt flags ev s"
    unfolding l r p q by simp
  {
    assume a: "(enableEventAPI E \<longrightarrow> flags = PLUGIN_EVENT_SYSTEM E) \<and> poolInv s"
    then have d: "dispatchEvent E tlt flags ev s =
        dispatchEventForPluginEventSystem E tlt flags ev None ?s1"
      unfolding l by auto
    have inv: "poolInv ?s1" using a by simp
    obtain bk s2 where acq: "getTopLevelCallbackBookKeeping tlt ev None ?s1 = (bk, s2)"
      by (cases "getTopLevelCallbackBookKeeping tlt ev None ?s1")
    note g = getTopLevelCallbackBookKeeping_poolInv[OF inv acq]
    let ?s0 = "s2\<lparr>world := batchedEventUpdatesBefore E (world ?s1),
                 calls := calls ?s1 @
                   [BatchedEventUpdates \<lparr>topLevelType = Some tlt, nativeEvent = Some ev,
                      targetInst = None, ancestors = []\<rparr>]\<rparr>"
    have rec: "targetInst (records ?s0 bk) = None" "ancestors (records ?s0 bk) = []"
      "nativeEvent (records ?s0 bk) = Some ev" "topLevelType (records ?s0 bk) = Some tlt"
      using g(1) by simp_all
    from handleTopLevel_absent_calls[OF rec(1,2,3), of E] obtain r0 where
      r0: "handleTopLevel E bk ?s0 = Some r0"
      and "calls (final r0) = calls ?s0 @
          [RunExtractedPluginEventsInBatch (topLevelType (records ?s0 bk)) None ev
             (getEventTarget E (world ?s0) ev)]"
      by blast
    then have c0: "calls (final r0) = calls ?s0 @
        [RunExtractedPluginEventsInBatch (Some tlt) None ev
           (getEventTarget E (batchedEventUpdatesBefore E (world s)) ev)]"
      using rec(4) by simp
    have s0eq: "?s0 = s2\<lparr>world := batchedEventUpdatesBefore E (world s2),
                 calls := calls s2 @ [BatchedEventUpdates (records s2 bk)]\<rparr>"
      using g(1,4) by (simp add: sameOutside_def)
    obtain rr where rr: "dispatchEventForPluginEventSystem E tlt flags ev None ?s1 = Some rr"
      using acq r0 unfolding s0eq
      by (cases r0)
         (auto simp: dispatchEventForPluginEventSystem_def batchedEventUpdates_def)
    from dispatchEventForPluginEventSystem_calls[OF inv acq rr] r0
    have "calls (final rr) = calls (final r0) @ [BatchedEventUpdatesReturn]"
      by auto
    with c0 rr d
    show "\<exists>r. dispatchEvent E tlt flags ev s = Some r \<and>
               calls (final r) = calls s @
                 [GetClosestInstanceFromNode (getEventTarget E (world s) ev),
                  BatchedEventUpdates
                    \<lparr>topLevelType = Some tlt, nativeEvent = Some ev, targetInst = None,
                     ancestors = []\<rparr>,
                  RunExtractedPluginEventsInBatch (Some tlt) None ev
                    (getEventTarget E (batchedEventUpdatesBefore E (world s)) ev),
                  BatchedEventUpdatesReturn]"
      by simp
  }
  {
    assume "enableEventAPI E \<and> flags \<noteq> PLUGIN_EVENT_SYSTEM E"
    then show "\<exists>r. dispatchEvent E tlt flags ev s = Some r \<and>
               calls (final r) = calls s @
                 [GetClosestInstanceFromNode (getEventTarget E (world s) ev),
                  DispatchEventForResponderEventSystem tlt None ev
                    (getEventTarget E (world s) ev) flags]"
      unfolding l
      by (auto simp: callResponderEventSystem_def final_def split: sum.splits)
  }
qed

theorem unmounted_instance_treated_as_absent_witness:
  "enabled exState \<and>
   getClosestInstanceFromNode exEnv (world exState)
     (getEventTarget exEnv (world exState) (exEvent 500)) = Some 5 \<and>
   \<not> isFiberMounted exEnv (world exState) 5 \<and> poolInv exState \<and>
   (\<exists>r. dispatchEvent exEnv ''load'' 1 (exEvent 500) exState = Some r \<and>
      calls (final r) =
        [GetClosestInstanceFromNode 500,
         BatchedEventUpdates
           \<lparr>topLevelType = Some ''load'', nativeEvent = Some (exEvent 500), targetInst = None,
            ancestors = []\<rparr>,
         RunExtractedPluginEventsInBatch (Some ''load'') None (exEvent 500) 500,
         BatchedEventUpdatesReturn]) \<and>
   (\<exists>r. dispatchEvent exEnvAPI ''load'' 2 (exEvent 500) exState = Some r \<and>
      calls (final r) =
        [GetClosestInstanceFromNode 500,
         DispatchEventForResponderEventSystem ''load'' None (exEvent 500) 500 2])"
proof -
  have e: "enabled exState" "calls exState = []" "world exState = 0"
    by (simp_all add: exState_def)
  have f: "getEventTarget exEnv w (exEvent 500) = 500" "enableEventAPI exEnv = False"
    "batchedEventUpdatesBefore exEnv w = w" "PLUGIN_EVENT_SYSTEM exEnv = 1"
    "getEventTarget exEnvAPI w (exEvent 500) = 500" "enableEventAPI exEnvAPI"
    "PLUGIN_EVENT_SYSTEM exEnvAPI = 1" for w
    by (simp_all add: exEnvAPI_def exEnv_def exEvent_def)
  have h2: "getClosestInstanceFromNode exEnv (world exState)
     (getEventTarget exEnv (world exState) (exEvent 500)) = Some 5"
    by (simp add: exEnv_fields exClosest_def exState_def exEvent_def)
  have h3: "\<not> isFiberMounted exEnv (world exState) 5" by (simp add: exEnv_fields)
  have h2': "getClosestInstanceFromNode exEnvAPI (world exState)
     (getEventTarget exEnvAPI (world exState) (exEvent 500)) = Some 5"
    by (simp add: exEnvAPI_def exEnv_fields exClosest_def exState_def exEvent_def)
  have h3': "\<not> isFiberMounted exEnvAPI (world exState) 5"
    by (simp add: exEnvAPI_def exEnv_fields)
  have a: "\<exists>r. dispatchEvent exEnv ''load'' 1 (exEvent 500) exState = Some r \<and>
      calls (final r) =
        [GetClosestInstanceFromNode 500,
         BatchedEventUpdates
           \<lparr>topLevelType = Some ''load'', nativeEvent = Some (exEvent 500), targetInst = None,
            ancestors = []\<rparr>,
         RunExtractedPluginEventsInBatch (Some ''load'') None (exEvent 500) 500,
         BatchedEventUpdatesReturn]"
    using unmounted_instance_treated_as_absent[OF e(1) h2 h3, of "''load''" 1,
        THEN conjunct2, THEN conjunct1] poolInv_exState
    by (simp add: f e)
  have b: "\<exists>r. dispatchEvent exEnvAPI ''load'' 2 (exEvent 500) exState = Some r \<and>
      calls (final r) =
        [GetClosestInstanceFromNode 500,
         DispatchEventForResponderEventSystem ''load'' None (exEvent 500) 500 2]"
    using unmounted_instance_treated_as_absent[OF e(1) h2' h3', of "''load''" 2,
        THEN conjunct2, THEN conjunct2]
    by (simp add: f e)
  show ?thesis using e(1) h2 h3 poolInv_exState a b by blast
qed

subsection \<open>C7: an absent target\<close>

text \<open>
  C7. For a null target instance the traversal pushes the single entry null and stops, and
  the delivery loop calls \<open>runExtractedPluginEventsInBatch\<close> exactly once, with the target
  null.
\<close>

theorem absent_target_delivered_once:
  assumes "targetInst (records s bk) = None" and "ancestors (records s bk) = []"
    and "nativeEvent (records s bk) = Some ev"
  shows "handleTopLevel_ancestors E bk None s = Some (pushAncestor bk None s) \<and>
         ancestors (records (pushAncestor bk None s) bk) = [None] \<and>
         calls (pushAncestor bk None s) = calls s \<and>
         handleTopLevel E bk s =
           Some (case runExtractedPluginEventsInBatch E (topLevelType (records s bk)) None ev
                        (getEventTarget E (world s) ev) (world s) of
                   Inl (e, w) \<Rightarrow>
                     Inl (e, (pushAncestor bk None s)
                           \<lparr>world := w,
                            calls := calls s @
                              [RunExtractedPluginEventsInBatch (topLevelType (records s bk)) None
                                 ev (getEventTarget E (world s) ev)]\<rparr>)
                 | Inr w \<Rightarrow>
                     Inr ((pushAncestor bk None s)
                           \<lparr>world := w,
                            calls := calls s @
                              [RunExtractedPluginEventsInBatch (topLevelType (records s bk)) None
                                 ev (getEventTarget E (world s) ev)]\<rparr>))"
proof -
  have a: "handleTopLevel_ancestors E bk None s = Some (pushAncestor bk None s)"
    by (subst handleTopLevel_ancestors.simps) simp
  have b: "ancestors (records (pushAncestor bk None s) bk) = [None]"
    using assms(2) by (simp add: pushAncestor_def)
  have c: "calls (pushAncestor bk None s) = calls s"
    by (simp add: pushAncestor_def)
  have d: "handleTopLevel E bk s = Some (delivered (pushAncestor bk None s)
      (deliveries E (topLevelType (records s bk)) ev [None] (world s)))"
    using assms by (simp add: handleTopLevel_entries entries_def)
  show ?thesis unfolding d using a b c
    by (simp add: delivered_def pushAncestor_def split: sum.splits prod.splits)
qed

theorem absent_target_delivered_once_witness:
  "targetInst (records (exAcquired None) 0) = None \<and>
   ancestors (records (exAcquired None) 0) = [] \<and>
   nativeEvent (records (exAcquired None) 0) = Some (exEvent 300) \<and>
   handleTopLevel_ancestors exEnv 0 None (exAcquired None) =
     Some (pushAncestor 0 None (exAcquired None)) \<and>
   ancestors (records (pushAncestor 0 None (exAcquired None)) 0) = [None] \<and>
   handleTopLevel exEnv 0 (exAcquired None) =
     Some (Inr ((pushAncestor 0 None (exAcquired None))
        \<lparr>world := 1,
         calls := [RunExtractedPluginEventsInBatch (Some ''click'') None (exEvent 300) 300]\<rparr>))"
proof -
  have h: "targetInst (records (exAcquired None) 0) = None"
    "ancestors (records (exAcquired None) 0) = []"
    "nativeEvent (records (exAcquired None) 0) = Some (exEvent 300)"
    by (simp_all add: exAcquired_record)
  show ?thesis
    using h absent_target_delivered_once[OF h, of exEnv]
    by (simp add: exAcquired_record exEnv_fields exEvent_def exEnv_def)
qed

subsection \<open>C8: a detached tree\<close>

text \<open>
  C8. For an instance whose parent chain, of any length, ends in a node that is not tagged
  \<open>HostRoot\<close> (\<open>chainTop\<close>, stated on the \<open>return\<close> links), the traversal stops without
  appending it and without any call: when it is the target, the sequence stays empty, no
  handler is called and nothing is thrown; when it is reached from an inner instance, whose
  own chain ends in a root mounted in a container that the detached instance owns, the
  sequence ends with that inner instance.
\<close>

theorem detached_tree_not_appended:
  assumes "chainTop (fiberAt E (world s)) a t"
    and "tag (fiberAt E (world s) t) \<noteq> HostRoot E"
  shows "handleTopLevel_ancestors E bk (Some a) s = Some s \<and>
         (targetInst (records s bk) = Some a \<and> ancestors (records s bk) = [] \<longrightarrow>
            handleTopLevel E bk s = Some (Inr s)) \<and>
         (\<forall>b tb. chainTop (fiberAt E (world s)) b tb \<and>
              tag (fiberAt E (world s) tb) = HostRoot E \<and>
              getClosestInstanceFromNode E (world s)
                (containerInfo (fiberAt E (world s) tb)) = Some a \<longrightarrow>
            handleTopLevel_ancestors E bk (Some b) s =
              Some ((pushAncestor bk (Some b) s)
                      \<lparr>calls := calls s @
                         [GetClosestInstanceFromNode
                            (containerInfo (fiberAt E (world s) tb))]\<rparr>))"
proof -
  have r: "findRootContainerNode E (world s) a = Some None"
    using findRootContainerNode_chainTop[OF assms(1)] assms(2) by simp
  have a: "\<And>s'. world s' = world s \<Longrightarrow> handleTopLevel_ancestors E bk (Some a) s' = Some s'"
    using r by (subst handleTopLevel_ancestors.simps) simp
  have b: "handleTopLevel E bk s = Some (Inr s)"
    if "targetInst (records s bk) = Some a \<and> ancestors (records s bk) = []"
    using that a[of s]
    by (simp add: handleTopLevel_def) (subst handleTopLevel_dispatch.simps, simp)
  have c: "handleTopLevel_ancestors E bk (Some b) s =
              Some ((pushAncestor bk (Some b) s)
                      \<lparr>calls := calls s @
                         [GetClosestInstanceFromNode
                            (containerInfo (fiberAt E (world s) tb))]\<rparr>)"
    if h: "chainTop (fiberAt E (world s)) b tb \<and>
              tag (fiberAt E (world s) tb) = HostRoot E \<and>
              getClosestInstanceFromNode E (world s)
                (containerInfo (fiberAt E (world s) tb)) = Some a" for b tb
  proof -
    let ?root = "containerInfo (fiberAt E (world s) tb)"
    have rb: "findRootContainerNode E (world s) b = Some (Some ?root)"
      using h findRootContainerNode_chainTop[of E "world s" b tb] by simp
    show ?thesis
      using rb h
        a[of "(pushAncestor bk (Some b) s)\<lparr>calls := calls s @ [GetClosestInstanceFromNode ?root]\<rparr>"]
      by (subst handleTopLevel_ancestors.simps) (simp add: pushAncestor_def)
  qed
  show ?thesis using a[of s] b c by blast
qed

text \<open>
  In the example world fiber 4 lies two links below the top 10 of a detached fragment, and
  the tree of fiber 7 is mounted in the node 400 that fiber 4 owns.
\<close>

theorem detached_tree_not_appended_witness:
  "chainTop (fiberAt exEnv (world (exAcquired (Some 4)))) 4 10 \<and>
   return (fiberAt exEnv (world (exAcquired (Some 4))) 4) = Some 9 \<and>
   return (fiberAt exEnv (world (exAcquired (Some 4))) 9) = Some 10 \<and>
   tag (fiberAt exEnv (world (exAcquired (Some 4))) 10) \<noteq> HostRoot exEnv \<and>
   targetInst (records (exAcquired (Some 4)) 0) = Some 4 \<and>
   ancestors (records (exAcquired (Some 4)) 0) = [] \<and>
   chainTop (fiberAt exEnv (world (exAcquired (Some 4)))) 7 6 \<and>
   tag (fiberAt exEnv (world (exAcquired (Some 4))) 6) = HostRoot exEnv \<and>
   getClosestInstanceFromNode exEnv (world (exAcquired (Some 4)))
     (containerInfo (fiberAt exEnv (world (exAcquired (Some 4))) 6)) = Some 4 \<and>
   handleTopLevel_ancestors exEnv 0 (Some 4) (exAcquired (Some 4)) =
     Some (exAcquired (Some 4)) \<and>
   handleTopLevel exEnv 0 (exAcquired (Some 4)) = Some (Inr (exAcquired (Some 4))) \<and>
   handleTopLevel_ancestors exEnv 0 (Some 7) (exAcquired (Some 4)) =
     Some ((pushAncestor 0 (Some 7) (exAcquired (Some 4)))
             \<lparr>calls := calls (exAcquired (Some 4)) @ [GetClosestInstanceFromNode 400]\<rparr>)"
proof -
  have w: "world (exAcquired (Some 4)) = 0" by (rule exAcquired_record)
  have h1: "chainTop (fiberAt exEnv (world (exAcquired (Some 4)))) 4 10"
    unfolding w by (rule exChain4)
  have l: "return (fiberAt exEnv (world (exAcquired (Some 4))) 4) = Some 9"
    "return (fiberAt exEnv (world (exAcquired (Some 4))) 9) = Some 10"
    by (simp_all add: exEnv_fields exFiberAt_def)
  have h2: "tag (fiberAt exEnv (world (exAcquired (Some 4))) 10) \<noteq> HostRoot exEnv"
    by (simp add: exEnv_fields exFiberAt_def)
  have h3: "targetInst (records (exAcquired (Some 4)) 0) = Some 4 \<and>
      ancestors (records (exAcquired (Some 4)) 0) = []"
    by (simp add: exAcquired_record)
  have h4: "chainTop (fiberAt exEnv (world (exAcquired (Some 4)))) 7 6"
    unfolding w by (rule exChain7)
  have h5: "tag (fiberAt exEnv (world (exAcquired (Some 4))) 6) = HostRoot exEnv"
    by (simp add: exEnv_fields exFiberAt_def)
  have h6: "getClosestInstanceFromNode exEnv (world (exAcquired (Some 4)))
     (containerInfo (fiberAt exEnv (world (exAcquired (Some 4))) 6)) = Some 4"
    by (simp add: exEnv_fields exFiberAt_def exClosest_def)
  have c400: "containerInfo (fiberAt exEnv (world (exAcquired (Some 4))) 6) = 400"
    by (simp add: exEnv_fields exFiberAt_def)
  note T = detached_tree_not_appended[OF h1 h2, of 0]
  from T have a: "handleTopLevel_ancestors exEnv 0 (Some 4) (exAcquired (Some 4)) =
     Some (exAcquired (Some 4))" by blast
  from T h3 have b: "handleTopLevel exEnv 0 (exAcquired (Some 4)) =
     Some (Inr (exAcquired (Some 4)))" by blast
  from T h4 h5 h6 have "handleTopLevel_ancestors exEnv 0 (Some 7) (exAcquired (Some 4)) =
     Some ((pushAncestor 0 (Some 7) (exAcquired (Some 4)))
             \<lparr>calls := calls (exAcquired (Some 4)) @
                [GetClosestInstanceFromNode
                   (containerInfo (fiberAt exEnv (world (exAcquired (Some 4))) 6))]\<rparr>)"
    by blast
  then have c: "handleTopLevel_ancestors exEnv 0 (Some 7) (exAcquired (Some 4)) =
     Some ((pushAncestor 0 (Some 7) (exAcquired (Some 4)))
             \<lparr>calls := calls (exAcquired (Some 4)) @ [GetClosestInstanceFromNode 400]\<rparr>)"
    unfolding c400 .
  show ?thesis using h1 l h2 h3 h4 h5 h6 a b c by blast
qed

subsection \<open>C9: the pool cannot be observed\<close>

text \<open>
  C9. For every sequence of native events fired at listeners, from a state that satisfies
  the pool invariant, dispatch with the pool and dispatch that always allocates either both
  run forever or both return, with the same errors thrown, the same enabled flag, the same
  world and the same calls into the collaborators, in the same order.
\<close>

theorem pooling_unobservable:
  assumes "poolInv s" and "enabled s = enabled u" and "world s = world u"
    and "calls s = calls u"
  shows "rel_option sameObservations (fireEvents E evs s) (fireEvents_alwaysAllocate E evs u)"
  using assms
proof (induction evs arbitrary: s u)
  case Nil
  then show ?case by (simp add: sameObservations_def)
next
  case (Cons lev evs)
  have rel: "rel_option sameOutcome (callListener E (fst lev) (snd lev) s)
               (callListener_alwaysAllocate E (fst lev) (snd lev) u)"
    by (rule callListener_sameOutcome) (use Cons.prems in simp_all)
  show ?case
  proof (cases "callListener E (fst lev) (snd lev) s")
    case None
    with rel have "callListener_alwaysAllocate E (fst lev) (snd lev) u = None"
      by (cases "callListener_alwaysAllocate E (fst lev) (snd lev) u") simp_all
    with None show ?thesis by simp
  next
    case (Some r)
    with rel obtain r' where
      r': "callListener_alwaysAllocate E (fst lev) (snd lev) u = Some r'"
      and so: "sameOutcome r r'"
      by (cases "callListener_alwaysAllocate E (fst lev) (snd lev) u") simp_all
    have "poolInv (final r)" by (rule callListener_poolInv[OF Cons.prems(1) Some])
    then have "rel_option sameObservations (fireEvents E evs (final r))
                 (fireEvents_alwaysAllocate E evs (final r'))"
      by (rule Cons.IH) (use so in \<open>simp_all add: sameOutcome_def\<close>)
    then show ?thesis using Some r' so
      by (cases "fireEvents E evs (final r)"; cases "fireEvents_alwaysAllocate E evs (final r')")
         (auto simp: sameObservations_def sameOutcome_def)
  qed
qed

lemma exC9:
  "map_option (\<lambda>p. (fst p, world (snd p), callbackBookkeepingPool (snd p), allocated (snd p)))
     (fireEvents exEnv exEvents exState) =
   Some ([None, Some (Thrown ''handler''), None, None], 13, [0], 1)"
  "map_option (\<lambda>p. (fst p, world (snd p), callbackBookkeepingPool (snd p), allocated (snd p)))
     (fireEvents_alwaysAllocate exEnv exEvents exState) =
   Some ([None, Some (Thrown ''handler''), None, None], 13, [], 4)"
  by code_simp+

theorem pooling_unobservable_witness:
  "poolInv exState \<and>
   (\<exists>p q. fireEvents exEnv exEvents exState = Some p \<and>
          fireEvents_alwaysAllocate exEnv exEvents exState = Some q \<and>
          sameObservations p q \<and>
          fst p = [None, Some (Thrown ''handler''), None, None] \<and>
          callbackBookkeepingPool (snd p) = [0] \<and> allocated (snd p) = 1 \<and>
          callbackBookkeepingPool (snd q) = [] \<and> allocated (snd q) = 4)"
proof -
  obtain p where p: "fireEvents exEnv exEvents exState = Some p"
    and p': "fst p = [None, Some (Thrown ''handler''), None, None]"
      "callbackBookkeepingPool (snd p) = [0]" "allocated (snd p) = 1"
    using exC9(1) by (cases "fireEvents exEnv exEvents exState") auto
  obtain q where q: "fireEvents_alwaysAllocate exEnv exEvents exState = Some q"
    and q': "callbackBookkeepingPool (snd q) = []" "allocated (snd q) = 4"
    using exC9(2) by (cases "fireEvents_alwaysAllocate exEnv exEvents exState") auto
  have "rel_option sameObservations (fireEvents exEnv exEvents exState)
          (fireEvents_alwaysAllocate exEnv exEvents exState)"
    by (rule pooling_unobservable[OF poolInv_exState]) simp_all
  then have "sameObservations p q" using p q by simp
  then show ?thesis using poolInv_exState p q p' q' by blast
qed

subsection \<open>C10: the pool invariant\<close>

text \<open>
  C10. Every acquire and every release preserves the invariant of the pool: every record in
  \<open>callbackBookkeepingPool\<close> has \<open>topLevelType\<close>, \<open>nativeEvent\<close> and \<open>targetInst\<close> null and
  \<open>ancestors\<close> of length 0, and the pool never holds more than 10 records. The pooled path of
  acquire sets the three scalar fields and keeps the \<open>ancestors\<close> the record had, so the
  record it returns is the one a fresh allocation gives only because the invariant holds.
  Release keeps the invariant for a record in use, and so does every call of a listener.
\<close>

theorem pool_invariant_preserved:
  assumes "poolInv s"
  shows "length (callbackBookkeepingPool s) \<le> 10 \<and>
         (\<forall>a \<in> set (callbackBookkeepingPool s).
            topLevelType (records s a) = None \<and> nativeEvent (records s a) = None \<and>
            targetInst (records s a) = None \<and> length (ancestors (records s a)) = 0) \<and>
         (\<forall>tlt ev inst bk s1.
            getTopLevelCallbackBookKeeping tlt ev inst s = (bk, s1) \<longrightarrow>
              poolInv s1 \<and> inUse bk s1 \<and>
              records s1 bk =
                \<lparr>topLevelType = Some tlt, nativeEvent = Some ev, targetInst = inst,
                 ancestors = []\<rparr> \<and>
              (callbackBookkeepingPool s \<noteq> [] \<longrightarrow>
                 ancestors (records s1 bk) = ancestors (records s bk))) \<and>
         (\<forall>bk. inUse bk s \<longrightarrow> poolInv (releaseTopLevelCallbackBookKeeping bk s)) \<and>
         (\<forall>E l ev r. callListener E l ev s = Some r \<longrightarrow> poolInv (final r))"
proof (intro conjI allI impI ballI)
  show "length (callbackBookkeepingPool s) \<le> 10"
    using assms by (simp add: poolInv_def CALLBACK_BOOKKEEPING_POOL_SIZE_def)
next
  fix a assume "a \<in> set (callbackBookkeepingPool s)"
  then have "records s a = cleared" using assms by (simp add: poolInv_def)
  then show "topLevelType (records s a) = None" "nativeEvent (records s a) = None"
    "targetInst (records s a) = None" "length (ancestors (records s a)) = 0"
    by (simp_all add: cleared_def)
next
  fix tlt ev inst bk s1
  assume acq: "getTopLevelCallbackBookKeeping tlt ev inst s = (bk, s1)"
  show "poolInv s1" by (rule getTopLevelCallbackBookKeeping_poolInv(2)[OF assms acq])
  show "inUse bk s1" by (rule getTopLevelCallbackBookKeeping_poolInv(3)[OF assms acq])
  show "records s1 bk =
          \<lparr>topLevelType = Some tlt, nativeEvent = Some ev, targetInst = inst, ancestors = []\<rparr>"
    by (rule getTopLevelCallbackBookKeeping_poolInv(1)[OF assms acq])
  assume "callbackBookkeepingPool s \<noteq> []"
  with acq show "ancestors (records s1 bk) = ancestors (records s bk)"
    by (auto simp: getTopLevelCallbackBookKeeping_def Let_def)
next
  fix bk assume "inUse bk s"
  then show "poolInv (releaseTopLevelCallbackBookKeeping bk s)"
    by (rule releaseTopLevelCallbackBookKeeping_poolInv(1)[OF assms])
next
  fix E :: "'a env" and l ev r
  assume "callListener E l ev s = Some r"
  then show "poolInv (final r)" by (rule callListener_poolInv[OF assms])
qed

lemma ex_dispatch_click:
  "map_option (\<lambda>r. (raised r, world (final r), calls (final r),
       callbackBookkeepingPool (final r), allocated (final r)))
     (callListener exEnv (Listener DispatchEvent ''click'' 1) (exEvent 300) exPooled) =
     Some (None, 2,
        [GetClosestInstanceFromNode 300,
         BatchedEventUpdates \<lparr>topLevelType = Some ''click'', nativeEvent = Some (exEvent 300),
           targetInst = Some 3, ancestors = []\<rparr>,
         GetClosestInstanceFromNode 200, GetClosestInstanceFromNode 100,
         RunExtractedPluginEventsInBatch (Some ''click'') (Some 3) (exEvent 300) 300,
         RunExtractedPluginEventsInBatch (Some ''click'') (Some 1) (exEvent 300) 300,
         BatchedEventUpdatesReturn], [0], 2)"
  by code_simp

theorem pool_invariant_preserved_witness:
  "poolInv exPooled \<and>
   poolInv (snd (getTopLevelCallbackBookKeeping ''click'' (exEvent 300) (Some 3) exPooled)) \<and>
   ancestors (records (snd (getTopLevelCallbackBookKeeping ''click'' (exEvent 300) (Some 3) exPooled))
     (fst (getTopLevelCallbackBookKeeping ''click'' (exEvent 300) (Some 3) exPooled))) = [] \<and>
   inUse 1 exPooled \<and> poolInv (releaseTopLevelCallbackBookKeeping 1 exPooled) \<and>
   (\<exists>r. callListener exEnv (Listener DispatchEvent ''click'' 1) (exEvent 300) exPooled = Some r
        \<and> poolInv (final r))"
proof -
  have h: "poolInv exPooled"
    by (simp add: poolInv_def exPooled_def exState_def cleared_def
        CALLBACK_BOOKKEEPING_POOL_SIZE_def)
  have u: "inUse 1 exPooled" by (simp add: inUse_def exPooled_def exState_def)
  obtain r where r: "callListener exEnv (Listener DispatchEvent ''click'' 1) (exEvent 300) exPooled = Some r"
    using ex_dispatch_click by (cases "callListener exEnv (Listener DispatchEvent ''click'' 1) (exEvent 300) exPooled") simp_all
  obtain bk s1 where a: "getTopLevelCallbackBookKeeping ''click'' (exEvent 300) (Some 3) exPooled = (bk, s1)"
    by (cases "getTopLevelCallbackBookKeeping ''click'' (exEvent 300) (Some 3) exPooled")
  note T = pool_invariant_preserved[OF h]
  have c: "poolInv (final r)" using T r by blast
  have rel: "poolInv (releaseTopLevelCallbackBookKeeping 1 exPooled)" using T u by blast
  have p: "poolInv s1" using T a by blast
  have "records s1 bk = \<lparr>topLevelType = Some ''click'', nativeEvent = Some (exEvent 300),
          targetInst = Some 3, ancestors = []\<rparr>"
    using T a by blast
  then have e: "ancestors (records s1 bk) = []" by simp
  show ?thesis using h u r a c rel p e by simp
qed

end
